theory Spec2Isabelle
  imports Complex_Main "HOL-Library.AList"
begin

section \<open>The booking database of GoBookingApp\<close>

text \<open>
  A shallow embedding of package \<open>database\<close> (the in-memory store with its business rules and
  wait queue) and of the structs of package \<open>models\<close>.

  \<^item> Every method of \<open>Database\<close> runs under the store's mutex; the model is the sequential
    semantics of one call: a function from the store to a result and the store after the call.
  \<^item> \<open>time.Time\<close> is an instant in nanoseconds, an \<open>int\<close>. A call takes the reading of the
    clock as its parameter \<open>now\<close>, used for every \<open>time.Now()\<close> of that call.
  \<^item> \<open>uuid.New().String()\<close> is the parameter \<open>newID\<close> of the call that draws it.
  \<^item> Go's \<open>int\<close> is read as an unbounded integer: the model describes the runs in which no
    counter leaves the machine range.
  \<^item> \<open>float64\<close> is the type variable \<open>'f\<close>; the only arithmetic on it, the product
    \<open>Price * float64(n)\<close>, is the parameter \<open>fmul\<close>.
  \<^item> \<open>strings.ToLower\<close> and \<open>strings.TrimSpace\<close> belong to Go's library and are parameters
    of the functions that call them.
  \<^item> A Go map is an association list read through \<open>map_of\<close>, written with \<open>AList.update\<close>
    and \<open>AList.delete\<close>; a \<open>range\<close> loop over a map is a traversal of the list. No
    operation below depends on the order of traversal.
  \<^item> An error made by \<open>fmt.Errorf\<close> is a constructor of the datatype \<open>error\<close>, one for each
    message of the source.
\<close>

subsection \<open>Time\<close>

type_synonym time = int

definition Second :: int where
  "Second = 1000000000"

abbreviation (input) After :: "time \<Rightarrow> time \<Rightarrow> bool" where
  "After t u \<equiv> u < t"

abbreviation (input) Before :: "time \<Rightarrow> time \<Rightarrow> bool" where
  "Before t u \<equiv> t < u"

subsection \<open>models.go\<close>

record User =
  u_ID :: string
  u_Name :: string
  u_Email :: string
  u_Created :: time

record 'f Conference =
  c_ID :: string
  c_Name :: string
  c_Location :: string
  TotalTickets :: int
  AvailableTickets :: int
  Price :: 'f
  Date :: time

record 'f Booking =
  b_ID :: string
  b_UserID :: string
  b_ConferenceID :: string
  TicketsBooked :: int
  b_TotalAmount :: 'f
  Status :: string
  BookedAt :: time

record 'f SeatReservation =
  r_ID :: string
  r_UserID :: string
  r_ConferenceID :: string
  r_TicketCount :: int
  r_TotalAmount :: 'f
  ExpiresAt :: time
  r_CreatedAt :: time

subsection \<open>The store\<close>

record WaitEntry =
  w_ID :: string
  w_UserID :: string
  w_ConferenceID :: string
  w_TicketCount :: int
  EnqueuedAt :: time

record 'f Database =
  Users :: "(string \<times> User) list"
  Conferences :: "(string \<times> 'f Conference) list"
  Bookings :: "(string \<times> 'f Booking) list"
  Reservations :: "(string \<times> 'f SeatReservation) list"
  WaitQueues :: "(string \<times> WaitEntry list) list"
  StartTime :: time

datatype error =
    UserAlreadyExists string    \<comment> \<open>"user with email %s already exists"\<close>
  | UserNotFound                \<comment> \<open>"user not found"\<close>
  | ConferenceNotFound          \<comment> \<open>"conference not found"\<close>
  | NotEnoughTickets            \<comment> \<open>"not enough tickets available"\<close>
  | AlreadyActiveReservation    \<comment> \<open>"you already have an active reservation for this conference"\<close>
  | NotEnoughForReservation     \<comment> \<open>"not enough tickets available for reservation"\<close>
  | ReservationNotFound         \<comment> \<open>"reservation not found"\<close>
  | ReservationExpired          \<comment> \<open>"reservation has expired"\<close>
  | NotYourTurn                 \<comment> \<open>"not your turn yet"\<close>
  | NilPointerDereference       \<comment> \<open>the run-time panic of a field access through a nil pointer\<close>

text \<open>
  The sample catalogue. The three prices are the \<open>float64\<close> constants 299.99, 399.99 and
  199.99, a parameter; \<open>Time.AddDate\<close> belongs to Go's library and is a parameter as well.
\<close>

definition addSampleData ::
  "(time \<Rightarrow> int \<Rightarrow> int \<Rightarrow> int \<Rightarrow> time) \<Rightarrow> 'f \<times> 'f \<times> 'f \<Rightarrow> time \<Rightarrow> 'f Database \<Rightarrow> 'f Database" where
  "addSampleData AddDate prices now db =
     (case prices of (p1, p2, p3) \<Rightarrow>
      let conf1 = \<lparr>c_ID = ''conf-1'', c_Name = ''Go Conference 2024'', c_Location = ''San Francisco'',
                   TotalTickets = 100, AvailableTickets = 100, Price = p1,
                   Date = AddDate now 0 2 0\<rparr>;
          conf2 = \<lparr>c_ID = ''conf-2'', c_Name = ''DevOps Summit'', c_Location = ''New York'',
                   TotalTickets = 75, AvailableTickets = 75, Price = p2,
                   Date = AddDate now 0 3 0\<rparr>;
          conf3 = \<lparr>c_ID = ''conf-3'', c_Name = ''Cloud Native Expo'', c_Location = ''Seattle'',
                   TotalTickets = 150, AvailableTickets = 150, Price = p3,
                   Date = AddDate now 0 1 15\<rparr>
      in db\<lparr>Conferences :=
              AList.update (c_ID conf3) conf3
                (AList.update (c_ID conf2) conf2
                  (AList.update (c_ID conf1) conf1 (Conferences db)))\<rparr>)"

definition NewDatabase ::
  "(time \<Rightarrow> int \<Rightarrow> int \<Rightarrow> int \<Rightarrow> time) \<Rightarrow> 'f \<times> 'f \<times> 'f \<Rightarrow> time \<Rightarrow> 'f Database" where
  "NewDatabase AddDate prices now =
     addSampleData AddDate prices now
       \<lparr>Users = [], Conferences = [], Bookings = [], Reservations = [], WaitQueues = [],
        StartTime = now\<rparr>"

definition ResetDatabase ::
  "(time \<Rightarrow> int \<Rightarrow> int \<Rightarrow> int \<Rightarrow> time) \<Rightarrow> 'f \<times> 'f \<times> 'f \<Rightarrow> time \<Rightarrow> 'f Database \<Rightarrow> 'f Database" where
  "ResetDatabase AddDate prices now db =
     addSampleData AddDate prices now
       (db\<lparr>Users := [], Conferences := [], Bookings := [], Reservations := [], WaitQueues := [],
           StartTime := now\<rparr>)"

subsection \<open>Users\<close>

definition CreateUser ::
  "(string \<Rightarrow> string) \<Rightarrow> (string \<Rightarrow> string) \<Rightarrow> string \<Rightarrow> time \<Rightarrow> string \<Rightarrow> string \<Rightarrow>
   'f Database \<Rightarrow> (error + User) \<times> 'f Database" where
  "CreateUser ToLower TrimSpace newID now name email db =
     (let norm = ToLower (TrimSpace email) in
      if list_ex (\<lambda>(_, user). ToLower (TrimSpace (u_Email user)) = norm) (Users db)
      then (Inl (UserAlreadyExists email), db)
      else
        let user = \<lparr>u_ID = newID, u_Name = name, u_Email = norm, u_Created = now\<rparr>
        in (Inr user, db\<lparr>Users := AList.update (u_ID user) user (Users db)\<rparr>))"

definition GetUser :: "string \<Rightarrow> 'f Database \<Rightarrow> error + User" where
  "GetUser userID db =
     (case map_of (Users db) userID of
        None \<Rightarrow> Inl UserNotFound
      | Some user \<Rightarrow> Inr user)"

definition GetConference :: "string \<Rightarrow> 'f Database \<Rightarrow> error + 'f Conference" where
  "GetConference conferenceID db =
     (case map_of (Conferences db) conferenceID of
        None \<Rightarrow> Inl ConferenceNotFound
      | Some conference \<Rightarrow> Inr conference)"

subsection \<open>Direct booking\<close>

definition CreateBooking ::
  "('f \<Rightarrow> int \<Rightarrow> 'f) \<Rightarrow> string \<Rightarrow> time \<Rightarrow> string \<Rightarrow> string \<Rightarrow> int \<Rightarrow>
   'f Database \<Rightarrow> (error + 'f Booking) \<times> 'f Database" where
  "CreateBooking fmul newID now userID conferenceID ticketCount db =
     (case map_of (Conferences db) conferenceID of
        None \<Rightarrow> (Inl ConferenceNotFound, db)
      | Some conference \<Rightarrow>
          if AvailableTickets conference < ticketCount then (Inl NotEnoughTickets, db)
          else
            let booking = \<lparr>b_ID = newID, b_UserID = userID, b_ConferenceID = conferenceID,
                           TicketsBooked = ticketCount,
                           b_TotalAmount = fmul (Price conference) ticketCount,
                           Status = ''confirmed'', BookedAt = now\<rparr>;
                conference' = conference\<lparr>AvailableTickets := AvailableTickets conference - ticketCount\<rparr>
            in (Inr booking,
                db\<lparr>Conferences := AList.update conferenceID conference' (Conferences db),
                   Bookings := AList.update (b_ID booking) booking (Bookings db)\<rparr>))"

subsection \<open>Seat reservations\<close>

definition cleanupExpiredReservationsLocked :: "time \<Rightarrow> 'f Database \<Rightarrow> 'f Database" where
  "cleanupExpiredReservationsLocked now db =
     db\<lparr>Reservations :=
          filter (\<lambda>(_, reservation). \<not> After now (ExpiresAt reservation)) (Reservations db)\<rparr>"

text \<open>The first loop of \<open>CreateReservation\<close>: does it return the duplicate error?\<close>

definition hasActiveReservation :: "time \<Rightarrow> string \<Rightarrow> string \<Rightarrow> 'f Database \<Rightarrow> bool" where
  "hasActiveReservation now userID conferenceID db =
     list_ex (\<lambda>(_, reservation).
                r_UserID reservation = userID \<and> r_ConferenceID reservation = conferenceID \<and>
                Before now (ExpiresAt reservation))
       (Reservations db)"

text \<open>The second loop of \<open>CreateReservation\<close>: the variable \<open>reservedTickets\<close> after it.\<close>

definition reservedTickets :: "string \<Rightarrow> 'f Database \<Rightarrow> int" where
  "reservedTickets conferenceID db =
     sum_list (map (\<lambda>(_, reservation). r_TicketCount reservation)
                (filter (\<lambda>(_, reservation). r_ConferenceID reservation = conferenceID)
                   (Reservations db)))"

definition CreateReservation ::
  "('f \<Rightarrow> int \<Rightarrow> 'f) \<Rightarrow> string \<Rightarrow> time \<Rightarrow> string \<Rightarrow> string \<Rightarrow> int \<Rightarrow>
   'f Database \<Rightarrow> (error + 'f SeatReservation) \<times> 'f Database" where
  "CreateReservation fmul newID now userID conferenceID ticketCount db0 =
     (let db = cleanupExpiredReservationsLocked now db0 in
      case map_of (Conferences db) conferenceID of
        None \<Rightarrow> (Inl ConferenceNotFound, db)
      | Some conference \<Rightarrow>
          if hasActiveReservation now userID conferenceID db
          then (Inl AlreadyActiveReservation, db)
          else
            let availableForReservation = AvailableTickets conference - reservedTickets conferenceID db
            in if availableForReservation < ticketCount then (Inl NotEnoughForReservation, db)
               else
                 let reservation = \<lparr>r_ID = newID, r_UserID = userID, r_ConferenceID = conferenceID,
                                    r_TicketCount = ticketCount,
                                    r_TotalAmount = fmul (Price conference) ticketCount,
                                    ExpiresAt = now + 15 * Second, r_CreatedAt = now\<rparr>
                 in (Inr reservation,
                     db\<lparr>Reservations :=
                          AList.update (r_ID reservation) reservation (Reservations db)\<rparr>))"

text \<open>
  In \<open>ConfirmReservation\<close> the conference is read from the map without a test; for a key that
  is not there the read yields nil and the assignment to \<open>conference.AvailableTickets\<close> panics
  before anything is stored.
\<close>

definition ConfirmReservation ::
  "string \<Rightarrow> time \<Rightarrow> string \<Rightarrow> 'f Database \<Rightarrow> (error + 'f Booking) \<times> 'f Database" where
  "ConfirmReservation newID now reservationID db =
     (case map_of (Reservations db) reservationID of
        None \<Rightarrow> (Inl ReservationNotFound, db)
      | Some reservation \<Rightarrow>
          if After now (ExpiresAt reservation)
          then (Inl ReservationExpired,
                db\<lparr>Reservations := AList.delete reservationID (Reservations db)\<rparr>)
          else
            let booking = \<lparr>b_ID = newID, b_UserID = r_UserID reservation,
                           b_ConferenceID = r_ConferenceID reservation,
                           TicketsBooked = r_TicketCount reservation,
                           b_TotalAmount = r_TotalAmount reservation,
                           Status = ''confirmed'', BookedAt = now\<rparr>
            in (case map_of (Conferences db) (r_ConferenceID reservation) of
                  None \<Rightarrow> (Inl NilPointerDereference, db)
                | Some conference \<Rightarrow>
                    let conference' = conference\<lparr>AvailableTickets :=
                                         AvailableTickets conference - r_TicketCount reservation\<rparr>
                    in (Inr booking,
                        db\<lparr>Conferences :=
                             AList.update (r_ConferenceID reservation) conference' (Conferences db),
                           Bookings := AList.update (b_ID booking) booking (Bookings db),
                           Reservations := AList.delete reservationID (Reservations db)\<rparr>)))"

definition CancelReservation :: "string \<Rightarrow> 'f Database \<Rightarrow> (error + unit) \<times> 'f Database" where
  "CancelReservation reservationID db =
     (case map_of (Reservations db) reservationID of
        None \<Rightarrow> (Inl ReservationNotFound, db)
      | Some _ \<Rightarrow> (Inr (), db\<lparr>Reservations := AList.delete reservationID (Reservations db)\<rparr>))"

definition GetReservation ::
  "time \<Rightarrow> string \<Rightarrow> 'f Database \<Rightarrow> (error + 'f SeatReservation) \<times> 'f Database" where
  "GetReservation now reservationID db0 =
     (let db = cleanupExpiredReservationsLocked now db0 in
      case map_of (Reservations db) reservationID of
        None \<Rightarrow> (Inl ReservationNotFound, db)
      | Some reservation \<Rightarrow> (Inr reservation, db))"

definition GetUserReservations ::
  "time \<Rightarrow> string \<Rightarrow> 'f Database \<Rightarrow> 'f SeatReservation list \<times> 'f Database" where
  "GetUserReservations now userID db0 =
     (let db = cleanupExpiredReservationsLocked now db0 in
      (map snd (filter (\<lambda>(_, reservation). r_UserID reservation = userID) (Reservations db)), db))"

subsection \<open>The wait queue\<close>

text \<open>\<open>db.WaitQueues[conferenceID]\<close>: the nil slice for a key that is not in the map.\<close>

definition waitQueue :: "string \<Rightarrow> 'f Database \<Rightarrow> WaitEntry list" where
  "waitQueue conferenceID db =
     (case map_of (WaitQueues db) conferenceID of None \<Rightarrow> [] | Some q \<Rightarrow> q)"

text \<open>
  The loop \<open>for i, e := range q { if e.UserID == userID { ... } }\<close> of \<open>EnqueueWait\<close> and
  \<open>GetQueuePosition\<close>: the index at which it leaves, if it does.
\<close>

fun findUser :: "string \<Rightarrow> WaitEntry list \<Rightarrow> nat option" where
  "findUser userID [] = None"
| "findUser userID (e # q) =
     (if w_UserID e = userID then Some 0 else map_option Suc (findUser userID q))"

definition EnqueueWait ::
  "string \<Rightarrow> time \<Rightarrow> string \<Rightarrow> string \<Rightarrow> int \<Rightarrow> 'f Database \<Rightarrow> int \<times> 'f Database" where
  "EnqueueWait newID now userID conferenceID ticketCount db =
     (let q = waitQueue conferenceID db in
      case findUser userID q of
        Some i \<Rightarrow>
          let q' = q[i := (q ! i)\<lparr>w_TicketCount := ticketCount\<rparr>]
          in (int i + 1, db\<lparr>WaitQueues := AList.update conferenceID q' (WaitQueues db)\<rparr>)
      | None \<Rightarrow>
          let entry = \<lparr>w_ID = newID, w_UserID = userID, w_ConferenceID = conferenceID,
                       w_TicketCount = ticketCount, EnqueuedAt = now\<rparr>;
              q' = q @ [entry]
          in (int (length q'), db\<lparr>WaitQueues := AList.update conferenceID q' (WaitQueues db)\<rparr>))"

definition GetQueuePosition :: "string \<Rightarrow> string \<Rightarrow> 'f Database \<Rightarrow> int" where
  "GetQueuePosition userID conferenceID db =
     (case findUser userID (waitQueue conferenceID db) of
        Some i \<Rightarrow> int i + 1
      | None \<Rightarrow> 0)"

text \<open>The loop of \<open>ClaimNext\<close>: the variable \<open>reserved\<close> after it.\<close>

definition reserved :: "time \<Rightarrow> string \<Rightarrow> 'f Database \<Rightarrow> int" where
  "reserved now conferenceID db =
     sum_list (map (\<lambda>(_, r). r_TicketCount r)
                (filter (\<lambda>(_, r). r_ConferenceID r = conferenceID \<and> Before now (ExpiresAt r))
                   (Reservations db)))"

definition ClaimNext ::
  "('f \<Rightarrow> int \<Rightarrow> 'f) \<Rightarrow> string \<Rightarrow> time \<Rightarrow> string \<Rightarrow> string \<Rightarrow>
   'f Database \<Rightarrow> (error + 'f SeatReservation) \<times> 'f Database" where
  "ClaimNext fmul newID now userID conferenceID db0 =
     (let db = cleanupExpiredReservationsLocked now db0 in
      case waitQueue conferenceID db of
        [] \<Rightarrow> (Inl NotYourTurn, db)
      | head # rest \<Rightarrow>
          if w_UserID head \<noteq> userID then (Inl NotYourTurn, db)
          else
            (case map_of (Conferences db) conferenceID of
               None \<Rightarrow> (Inl ConferenceNotFound, db)
             | Some conf \<Rightarrow>
                 let available = AvailableTickets conf - reserved now conferenceID db;
                     need = w_TicketCount head
                 in if available < need then (Inl NotEnoughTickets, db)
                    else
                      let res = \<lparr>r_ID = newID, r_UserID = userID, r_ConferenceID = conferenceID,
                                 r_TicketCount = need, r_TotalAmount = fmul (Price conf) need,
                                 ExpiresAt = now + 15 * Second, r_CreatedAt = now\<rparr>
                      in (Inr res,
                          db\<lparr>Reservations := AList.update (r_ID res) res (Reservations db),
                             WaitQueues := AList.update conferenceID rest (WaitQueues db)\<rparr>)))"

subsection \<open>Sequences of calls\<close>

text \<open>
  What a run of the program takes from outside the package: the library functions, the
  \<open>float64\<close> product and the prices of the sample catalogue.
\<close>

record 'f environment =
  env_ToLower :: "string \<Rightarrow> string"
  env_TrimSpace :: "string \<Rightarrow> string"
  env_fmul :: "'f \<Rightarrow> int \<Rightarrow> 'f"
  env_AddDate :: "time \<Rightarrow> int \<Rightarrow> int \<Rightarrow> int \<Rightarrow> time"
  env_prices :: "'f \<times> 'f \<times> 'f"

text \<open>
  A call of a method of \<open>Database\<close>: the identifier it draws (if it draws one), the reading
  of the clock (if it reads it), and its arguments in the order of the source.
\<close>

datatype call =
    CallCreateUser string time string string
  | CallGetUser string
  | CallGetConference string
  | CallCreateBooking string time string string int
  | CallCreateReservation string time string string int
  | CallConfirmReservation string time string
  | CallCancelReservation string
  | CallGetReservation time string
  | CallGetUserReservations time string
  | CallEnqueueWait string time string string int
  | CallGetQueuePosition string string
  | CallClaimNext string time string string
  | CallResetDatabase time

datatype 'f result =
    RUser User
  | RConference "'f Conference"
  | RBooking "'f Booking"
  | RReservation "'f SeatReservation"
  | RReservations "'f SeatReservation list"
  | RPosition int
  | RDone

definition returning ::
  "('a \<Rightarrow> 'f result) \<Rightarrow> (error + 'a) \<times> 'f Database \<Rightarrow> (error + 'f result) \<times> 'f Database" where
  "returning wrap out = (map_sum id wrap (fst out), snd out)"

fun step :: "'f environment \<Rightarrow> call \<Rightarrow> 'f Database \<Rightarrow> (error + 'f result) \<times> 'f Database" where
  "step env (CallCreateUser newID now name email) db =
     returning RUser (CreateUser (env_ToLower env) (env_TrimSpace env) newID now name email db)"
| "step env (CallGetUser userID) db = (map_sum id RUser (GetUser userID db), db)"
| "step env (CallGetConference conferenceID) db =
     (map_sum id RConference (GetConference conferenceID db), db)"
| "step env (CallCreateBooking newID now userID conferenceID ticketCount) db =
     returning RBooking (CreateBooking (env_fmul env) newID now userID conferenceID ticketCount db)"
| "step env (CallCreateReservation newID now userID conferenceID ticketCount) db =
     returning RReservation
       (CreateReservation (env_fmul env) newID now userID conferenceID ticketCount db)"
| "step env (CallConfirmReservation newID now reservationID) db =
     returning RBooking (ConfirmReservation newID now reservationID db)"
| "step env (CallCancelReservation reservationID) db =
     returning (\<lambda>_. RDone) (CancelReservation reservationID db)"
| "step env (CallGetReservation now reservationID) db =
     returning RReservation (GetReservation now reservationID db)"
| "step env (CallGetUserReservations now userID) db =
     (Inr (RReservations (fst (GetUserReservations now userID db))),
      snd (GetUserReservations now userID db))"
| "step env (CallEnqueueWait newID now userID conferenceID ticketCount) db =
     (Inr (RPosition (fst (EnqueueWait newID now userID conferenceID ticketCount db))),
      snd (EnqueueWait newID now userID conferenceID ticketCount db))"
| "step env (CallGetQueuePosition userID conferenceID) db =
     (Inr (RPosition (GetQueuePosition userID conferenceID db)), db)"
| "step env (CallClaimNext newID now userID conferenceID) db =
     returning RReservation (ClaimNext (env_fmul env) newID now userID conferenceID db)"
| "step env (CallResetDatabase now) db =
     (Inr RDone, ResetDatabase (env_AddDate env) (env_prices env) now db)"

text \<open>The store after a sequence of calls, made one after the other.\<close>

fun run :: "'f environment \<Rightarrow> call list \<Rightarrow> 'f Database \<Rightarrow> 'f Database" where
  "run env [] db = db"
| "run env (c # cs) db = run env cs (snd (step env c db))"

subsection \<open>Observations on a store\<close>

text \<open>
  The reservations of a user for a conference that are active at \<open>now\<close>, the entries at
  which the first loop of \<open>CreateReservation\<close> returns its error; and the tickets of all
  bookings for a conference.
\<close>

definition activeReservations ::
  "time \<Rightarrow> string \<Rightarrow> string \<Rightarrow> 'f Database \<Rightarrow> 'f SeatReservation list" where
  "activeReservations now userID conferenceID db =
     map snd (filter (\<lambda>(_, reservation).
                r_UserID reservation = userID \<and> r_ConferenceID reservation = conferenceID \<and>
                Before now (ExpiresAt reservation))
       (Reservations db))"

definition bookedTickets :: "string \<Rightarrow> 'f Database \<Rightarrow> int" where
  "bookedTickets conferenceID db =
     sum_list (map (\<lambda>(_, booking). TicketsBooked booking)
                (filter (\<lambda>(_, booking). b_ConferenceID booking = conferenceID) (Bookings db)))"

subsection \<open>Sequences of enqueues\<close>

text \<open>The identifier, the clock and the arguments of one call of \<open>EnqueueWait\<close>.\<close>

record enqueue =
  e_newID :: string
  e_now :: time
  e_userID :: string
  e_ticketCount :: int

text \<open>The calls of \<open>EnqueueWait\<close> for one conference, made in the order of the list.\<close>

fun enqueueAll :: "string \<Rightarrow> enqueue list \<Rightarrow> 'f Database \<Rightarrow> 'f Database" where
  "enqueueAll conferenceID [] db = db"
| "enqueueAll conferenceID (e # es) db =
     enqueueAll conferenceID es
       (snd (EnqueueWait (e_newID e) (e_now e) (e_userID e) conferenceID (e_ticketCount e) db))"

text \<open>The entry that \<open>EnqueueWait\<close> appends for a user who is not in the queue.\<close>

definition entryOf :: "string \<Rightarrow> enqueue \<Rightarrow> WaitEntry" where
  "entryOf conferenceID e =
     \<lparr>w_ID = e_newID e, w_UserID = e_userID e, w_ConferenceID = conferenceID,
      w_TicketCount = e_ticketCount e, EnqueuedAt = e_now e\<rparr>"

subsection \<open>Identifiers drawn by a call\<close>

text \<open>The identifier under which a call stores a reservation, if it stores one.\<close>

fun reservationID_drawn :: "call \<Rightarrow> string option" where
  "reservationID_drawn (CallCreateReservation newID now userID conferenceID ticketCount) = Some newID"
| "reservationID_drawn (CallClaimNext newID now userID conferenceID) = Some newID"
| "reservationID_drawn _ = None"

text \<open>The identifier under which a call stores a booking, if it stores one.\<close>

fun bookingID_drawn :: "call \<Rightarrow> string option" where
  "bookingID_drawn (CallCreateBooking newID now userID conferenceID ticketCount) = Some newID"
| "bookingID_drawn (CallConfirmReservation newID now reservationID) = Some newID"
| "bookingID_drawn _ = None"

subsection \<open>Stores of a run, and what a failed call may change\<close>

text \<open>
  The catalogue has one entry for an identifier, and the available tickets of every
  conference are its total tickets minus the tickets of its bookings.
\<close>

definition accounted :: "'f Database \<Rightarrow> bool" where
  "accounted db \<longleftrightarrow>
     distinct (map fst (Conferences db)) \<and>
     list_all (\<lambda>(k, conference).
                 AvailableTickets conference = TotalTickets conference - bookedTickets k db)
       (Conferences db)"

text \<open>
  What every store of a run satisfies: the ledger has one entry for an identifier, and the
  conference of every reservation is in the catalogue.
\<close>

definition wellFormed :: "'f Database \<Rightarrow> bool" where
  "wellFormed db \<longleftrightarrow>
     distinct (map fst (Reservations db)) \<and>
     list_all (\<lambda>(_, reservation). map_of (Conferences db) (r_ConferenceID reservation) \<noteq> None)
       (Reservations db)"

text \<open>The reading of the clock that a call takes, if it takes one.\<close>

fun clock :: "call \<Rightarrow> time option" where
  "clock (CallCreateUser newID now name email) = Some now"
| "clock (CallGetUser userID) = None"
| "clock (CallGetConference conferenceID) = None"
| "clock (CallCreateBooking newID now userID conferenceID ticketCount) = Some now"
| "clock (CallCreateReservation newID now userID conferenceID ticketCount) = Some now"
| "clock (CallConfirmReservation newID now reservationID) = Some now"
| "clock (CallCancelReservation reservationID) = None"
| "clock (CallGetReservation now reservationID) = Some now"
| "clock (CallGetUserReservations now userID) = Some now"
| "clock (CallEnqueueWait newID now userID conferenceID ticketCount) = Some now"
| "clock (CallGetQueuePosition userID conferenceID) = None"
| "clock (CallClaimNext newID now userID conferenceID) = Some now"
| "clock (CallResetDatabase now) = Some now"

text \<open>The errors that the source of each method can return.\<close>

fun errorsOf :: "call \<Rightarrow> error list" where
  "errorsOf (CallCreateUser newID now name email) = [UserAlreadyExists email]"
| "errorsOf (CallGetUser userID) = [UserNotFound]"
| "errorsOf (CallGetConference conferenceID) = [ConferenceNotFound]"
| "errorsOf (CallCreateBooking newID now userID conferenceID ticketCount) =
     [ConferenceNotFound, NotEnoughTickets]"
| "errorsOf (CallCreateReservation newID now userID conferenceID ticketCount) =
     [ConferenceNotFound, AlreadyActiveReservation, NotEnoughForReservation]"
| "errorsOf (CallConfirmReservation newID now reservationID) =
     [ReservationNotFound, ReservationExpired]"
| "errorsOf (CallCancelReservation reservationID) = [ReservationNotFound]"
| "errorsOf (CallGetReservation now reservationID) = [ReservationNotFound]"
| "errorsOf (CallGetUserReservations now userID) = []"
| "errorsOf (CallEnqueueWait newID now userID conferenceID ticketCount) = []"
| "errorsOf (CallGetQueuePosition userID conferenceID) = []"
| "errorsOf (CallClaimNext newID now userID conferenceID) =
     [NotYourTurn, ConferenceNotFound, NotEnoughTickets]"
| "errorsOf (CallResetDatabase now) = []"

text \<open>
  The store \<open>db'\<close> is the store \<open>db\<close> without some reservations, each of them expired at
  \<open>now\<close>, and equal to it otherwise.
\<close>

definition purgedOnly :: "time \<Rightarrow> 'f Database \<Rightarrow> 'f Database \<Rightarrow> bool" where
  "purgedOnly now db db' \<longleftrightarrow>
     Users db' = Users db \<and> Conferences db' = Conferences db \<and> Bookings db' = Bookings db \<and>
     WaitQueues db' = WaitQueues db \<and> StartTime db' = StartTime db \<and>
     Reservations db' = filter (\<lambda>entry. entry \<in> set (Reservations db')) (Reservations db) \<and>
     list_all (\<lambda>(k, reservation).
                 (k, reservation) \<in> set (Reservations db') \<or> After now (ExpiresAt reservation))
       (Reservations db)"

definition unchangedButPurged :: "call \<Rightarrow> 'f Database \<Rightarrow> 'f Database \<Rightarrow> bool" where
  "unchangedButPurged c db db' =
     (case clock c of None \<Rightarrow> db' = db | Some now \<Rightarrow> purgedOnly now db db')"

subsection \<open>A concrete environment\<close>

text \<open>
  An environment to evaluate the program in: the library functions as they act on ASCII text,
  prices as real numbers, and a calendar of months of thirty days.
\<close>

definition asciiLower :: "char \<Rightarrow> char" where
  "asciiLower c =
     (case map_of (zip ''ABCDEFGHIJKLMNOPQRSTUVWXYZ'' ''abcdefghijklmnopqrstuvwxyz'') c of
        None \<Rightarrow> c
      | Some l \<Rightarrow> l)"

definition asciiToLower :: "string \<Rightarrow> string" where
  "asciiToLower s = map asciiLower s"

definition asciiSpace :: "char \<Rightarrow> bool" where
  "asciiSpace c \<longleftrightarrow> c \<in> set [CHR 0x09, CHR 0x0A, CHR 0x0B, CHR 0x0C, CHR 0x0D, CHR '' '']"

definition asciiTrimSpace :: "string \<Rightarrow> string" where
  "asciiTrimSpace s = rev (dropWhile asciiSpace (rev (dropWhile asciiSpace s)))"

definition env0 :: "real environment" where
  "env0 = \<lparr>env_ToLower = asciiToLower, env_TrimSpace = asciiTrimSpace,
           env_fmul = (\<lambda>p n. p * real_of_int n),
           env_AddDate = (\<lambda>t y m d. t + ((y * 12 + m) * 30 + d) * 86400 * Second),
           env_prices = (299.99, 399.99, 199.99)\<rparr>"

text \<open>The store of a program started at instant 0, and its first two conferences.\<close>

definition db0 :: "real Database" where
  "db0 = NewDatabase (env_AddDate env0) (env_prices env0) 0"

definition heldConference1 :: "real Conference" where
  "heldConference1 =
     \<lparr>c_ID = ''conf-1'', c_Name = ''Go Conference 2024'', c_Location = ''San Francisco'',
      TotalTickets = 100, AvailableTickets = 100, Price = 299.99,
      Date = env_AddDate env0 0 0 2 0\<rparr>"

text \<open>Alice has an account and waits for two tickets of \<open>conf-1\<close>.\<close>

definition dbQueued :: "real Database" where
  "dbQueued =
     run env0 [CallCreateUser ''u-alice'' Second ''Alice'' ''Alice@Example.com'',
               CallEnqueueWait ''w-1'' (2 * Second) ''u-alice'' ''conf-1'' 2] db0"

text \<open>
  Alice, first in the queue of \<open>conf-1\<close>, reserves two tickets directly and then claims
  her turn.
\<close>

definition dbDirect :: "real Database" where
  "dbDirect =
     snd (CreateReservation (env_fmul env0) ''r-1'' (3 * Second) ''u-alice'' ''conf-1'' 2 dbQueued)"

definition dbDouble :: "real Database" where
  "dbDouble = snd (ClaimNext (env_fmul env0) ''r-2'' (4 * Second) ''u-alice'' ''conf-1'' dbDirect)"

text \<open>
  Alice has an account and holds all 75 tickets of \<open>conf-2\<close> until the seventeenth second.
\<close>

definition dbHeld :: "real Database" where
  "dbHeld =
     run env0 [CallCreateUser ''u-alice'' Second ''Alice'' ''Alice@Example.com'',
               CallCreateReservation ''r-1'' (2 * Second) ''u-alice'' ''conf-2'' 75] db0"

definition heldReservation :: "real SeatReservation" where
  "heldReservation =
     \<lparr>r_ID = ''r-1'', r_UserID = ''u-alice'', r_ConferenceID = ''conf-2'', r_TicketCount = 75,
      r_TotalAmount = 399.99 * 75, ExpiresAt = 17 * Second, r_CreatedAt = 2 * Second\<rparr>"

text \<open>
  Bob waits for one ticket of \<open>conf-2\<close>. At the seventeenth second, the instant at which
  Alice's hold expires, he claims his turn and Alice confirms; a second later he confirms.
\<close>

definition dbHeldQueued :: "real Database" where
  "dbHeldQueued = snd (EnqueueWait ''w-2'' (10 * Second) ''u-bob'' ''conf-2'' 1 dbHeld)"

definition dbClaimed :: "real Database" where
  "dbClaimed = snd (ClaimNext (env_fmul env0) ''r-2'' (17 * Second) ''u-bob'' ''conf-2'' dbHeldQueued)"

definition dbLate :: "real Database" where
  "dbLate = snd (ConfirmReservation ''b-1'' (17 * Second) ''r-1'' dbClaimed)"

definition dbLateOversold :: "real Database" where
  "dbLateOversold = snd (ConfirmReservation ''b-2'' (18 * Second) ''r-2'' dbLate)"

text \<open>
  While Alice holds all 75 tickets of \<open>conf-2\<close>, Bob books 75 tickets directly; then Alice
  confirms.
\<close>

definition dbBooked :: "real Database" where
  "dbBooked = snd (CreateBooking (env_fmul env0) ''b-1'' (4 * Second) ''u-bob'' ''conf-2'' 75 dbHeld)"

definition dbOversold :: "real Database" where
  "dbOversold = snd (ConfirmReservation ''b-2'' (5 * Second) ''r-1'' dbBooked)"

text \<open>Calls made after a reservation is gone; the second of them asks for the reservation.\<close>

definition laterCalls :: "call list" where
  "laterCalls =
     [CallCreateReservation ''r-2'' (20 * Second) ''u-bob'' ''conf-2'' 1,
      CallGetReservation (21 * Second) ''r-1'',
      CallClaimNext ''r-3'' (22 * Second) ''u-bob'' ''conf-2'']"

text \<open>An identifier that names no user holds a ticket of \<open>conf-1\<close>.\<close>

definition dbGhost :: "real Database" where
  "dbGhost = run env0 [CallCreateReservation ''r-9'' Second ''u-ghost'' ''conf-1'' 1] db0"

text \<open>Three users join a queue.\<close>

definition threeEnqueues :: "enqueue list" where
  "threeEnqueues =
     [\<lparr>e_newID = ''w-1'', e_now = 2 * Second, e_userID = ''u-alice'', e_ticketCount = 2\<rparr>,
      \<lparr>e_newID = ''w-2'', e_now = 3 * Second, e_userID = ''u-bob'', e_ticketCount = 1\<rparr>,
      \<lparr>e_newID = ''w-3'', e_now = 3 * Second, e_userID = ''u-carol'', e_ticketCount = 4\<rparr>]"

section \<open>Properties\<close>

subsection \<open>The purge\<close>

lemma cleanup_fields:
  "Users (cleanupExpiredReservationsLocked now db) = Users db"
  "Conferences (cleanupExpiredReservationsLocked now db) = Conferences db"
  "Bookings (cleanupExpiredReservationsLocked now db) = Bookings db"
  "WaitQueues (cleanupExpiredReservationsLocked now db) = WaitQueues db"
  "StartTime (cleanupExpiredReservationsLocked now db) = StartTime db"
  "Reservations (cleanupExpiredReservationsLocked now db) =
     filter (\<lambda>(_, reservation). \<not> After now (ExpiresAt reservation)) (Reservations db)"
  by (simp_all add: cleanupExpiredReservationsLocked_def)

lemma waitQueue_cleanup:
  "waitQueue c (cleanupExpiredReservationsLocked now db) = waitQueue c db"
  by (simp add: waitQueue_def cleanup_fields)

subsection \<open>The stores of a run\<close>

text \<open>
  Every store that calls make from the store of \<open>NewDatabase\<close> is well formed; so
  \<open>ConfirmReservation\<close> finds the conference of the reservation it confirms, and when it
  fails it has at most deleted an expired entry.
\<close>

lemma wellFormed_iff:
  "wellFormed db \<longleftrightarrow>
     distinct (map fst (Reservations db)) \<and>
     (\<forall>(k, r) \<in> set (Reservations db). map_of (Conferences db) (r_ConferenceID r) \<noteq> None)"
  by (simp add: wellFormed_def list_all_iff)

lemma set_update_subset: "set (AList.update k v xs) \<subseteq> insert (k, v) (set xs)"
  by (induction xs) auto

lemma wellFormed_cleanup:
  "wellFormed db \<Longrightarrow> wellFormed (cleanupExpiredReservationsLocked now db)"
  by (auto simp: wellFormed_iff cleanup_fields distinct_map_filter)

lemma wellFormed_insert:
  assumes "wellFormed db" "map_of (Conferences db) (r_ConferenceID r) \<noteq> None"
  shows "wellFormed (db\<lparr>Reservations := AList.update k r (Reservations db)\<rparr>)"
  using assms set_update_subset [of k r "Reservations db"]
  by (auto simp: wellFormed_iff distinct_update)

lemma wellFormed_delete:
  assumes "wellFormed db"
  shows "wellFormed (db\<lparr>Reservations := AList.delete k (Reservations db)\<rparr>)"
  using assms
  by (auto simp: wellFormed_iff AList.delete_eq distinct_map_filter)

lemma wellFormed_Conferences_update:
  assumes "wellFormed db"
  shows "wellFormed (db\<lparr>Conferences := AList.update k c (Conferences db)\<rparr>)"
  using assms
  by (auto simp: wellFormed_iff update_conv')

lemma wellFormed_other_fields:
  "wellFormed (db\<lparr>Users := us\<rparr>) = wellFormed db"
  "wellFormed (db\<lparr>Bookings := bs\<rparr>) = wellFormed db"
  "wellFormed (db\<lparr>WaitQueues := qs\<rparr>) = wellFormed db"
  by (simp_all add: wellFormed_def)

lemma wellFormed_CreateReservation:
  assumes "wellFormed db"
  shows "wellFormed (snd (CreateReservation fmul newID now u c n db))"
proof -
  let ?db = "cleanupExpiredReservationsLocked now db"
  have purged: "wellFormed ?db"
    using assms by (rule wellFormed_cleanup)
  have "wellFormed (?db\<lparr>Reservations := AList.update newID r (Reservations ?db)\<rparr>)"
    if "map_of (Conferences ?db) c = Some conference" "r_ConferenceID r = c" for r conference
    using purged that by (intro wellFormed_insert) simp_all
  with purged show ?thesis
    by (simp add: CreateReservation_def Let_def split: option.splits)
qed

lemma wellFormed_ClaimNext:
  assumes "wellFormed db"
  shows "wellFormed (snd (ClaimNext fmul newID now u c db))"
proof -
  let ?db = "cleanupExpiredReservationsLocked now db"
  have purged: "wellFormed ?db"
    using assms by (rule wellFormed_cleanup)
  have "wellFormed (?db\<lparr>Reservations := AList.update newID r (Reservations ?db), WaitQueues := qs\<rparr>)"
    if "map_of (Conferences ?db) c = Some conference" "r_ConferenceID r = c" for r conference qs
  proof -
    have "wellFormed (?db\<lparr>Reservations := AList.update newID r (Reservations ?db)\<rparr>)"
      using purged that by (intro wellFormed_insert) simp_all
    then show ?thesis
      by (simp add: wellFormed_def)
  qed
  with purged show ?thesis
    by (simp add: ClaimNext_def Let_def split: option.splits list.splits)
qed

lemma wellFormed_ConfirmReservation:
  assumes "wellFormed db"
  shows "wellFormed (snd (ConfirmReservation newID now rid db))"
proof -
  have "wellFormed (db\<lparr>Conferences := AList.update k c (Conferences db), Bookings := bs,
                       Reservations := AList.delete rid (Reservations db)\<rparr>)" for k c bs
    using wellFormed_delete [OF wellFormed_Conferences_update [OF assms, of k c], of rid]
    by (simp add: wellFormed_def)
  with assms wellFormed_delete [OF assms, of rid] show ?thesis
    by (simp add: ConfirmReservation_def Let_def split: option.splits)
qed

lemma wellFormed_step:
  assumes "wellFormed db"
  shows "wellFormed (snd (step env c db))"
proof (cases c)
  case (CallCreateUser newID now name email)
  with assms show ?thesis
    by (simp add: returning_def CreateUser_def Let_def wellFormed_other_fields)
next
  case (CallCreateBooking newID now userID conferenceID ticketCount)
  have "wellFormed (db\<lparr>Conferences := AList.update k x (Conferences db), Bookings := bs\<rparr>)" for k x bs
    using wellFormed_Conferences_update [OF assms, of k x] by (simp add: wellFormed_def)
  with assms CallCreateBooking show ?thesis
    by (simp add: returning_def CreateBooking_def Let_def split: option.splits)
next
  case (CallCreateReservation newID now userID conferenceID ticketCount)
  with assms show ?thesis by (simp add: returning_def wellFormed_CreateReservation)
next
  case (CallConfirmReservation newID now reservationID)
  with assms show ?thesis by (simp add: returning_def wellFormed_ConfirmReservation)
next
  case (CallCancelReservation reservationID)
  with assms wellFormed_delete [OF assms] show ?thesis
    by (simp add: returning_def CancelReservation_def split: option.splits)
next
  case (CallGetReservation now reservationID)
  with wellFormed_cleanup [OF assms] show ?thesis
    by (simp add: returning_def GetReservation_def Let_def split: option.splits)
next
  case (CallGetUserReservations now userID)
  with wellFormed_cleanup [OF assms] show ?thesis
    by (simp add: GetUserReservations_def Let_def)
next
  case (CallEnqueueWait newID now userID conferenceID ticketCount)
  with assms show ?thesis
    by (simp add: EnqueueWait_def Let_def wellFormed_other_fields split: option.splits)
next
  case (CallClaimNext newID now userID conferenceID)
  with assms show ?thesis by (simp add: returning_def wellFormed_ClaimNext)
next
  case (CallResetDatabase now)
  then show ?thesis
    by (simp add: ResetDatabase_def addSampleData_def wellFormed_def split: prod.splits)
qed (use assms in simp_all)

lemma wellFormed_NewDatabase: "wellFormed (NewDatabase AddDate prices now)"
  by (simp add: NewDatabase_def addSampleData_def wellFormed_def split: prod.splits)

lemma wellFormed_run: "wellFormed db \<Longrightarrow> wellFormed (run env cs db)"
  by (induction cs arbitrary: db) (simp_all add: wellFormed_step)

lemma purgedOnly_same: "purgedOnly now db db"
  by (auto simp: purgedOnly_def list_all_iff)

lemma purgedOnly_cleanup: "purgedOnly now db (cleanupExpiredReservationsLocked now db)"
proof -
  have "filter (\<lambda>entry. entry \<in> set (filter (\<lambda>(_, r). \<not> ExpiresAt r < now) (Reservations db)))
          (Reservations db) =
        filter (\<lambda>(_, r). \<not> ExpiresAt r < now) (Reservations db)"
    by (rule filter_cong) auto
  then show ?thesis
    by (simp add: purgedOnly_def cleanup_fields list_all_iff split_beta)
qed

lemma purgedOnly_delete_expired:
  assumes "wellFormed db" "map_of (Reservations db) rid = Some r" "ExpiresAt r < now"
  shows "purgedOnly now db (db\<lparr>Reservations := AList.delete rid (Reservations db)\<rparr>)"
proof -
  from assms(1) have d: "distinct (map fst (Reservations db))"
    by (simp add: wellFormed_def)
  have kept: "filter (\<lambda>entry. entry \<in> set (AList.delete rid (Reservations db))) (Reservations db) =
        AList.delete rid (Reservations db)"
    unfolding AList.delete_eq by (rule filter_cong) auto
  have "(k, x) \<in> set (AList.delete rid (Reservations db)) \<or> ExpiresAt x < now"
    if "(k, x) \<in> set (Reservations db)" for k x
  proof (cases "k = rid")
    case True
    from d that have "map_of (Reservations db) k = Some x"
      by (rule map_of_is_SomeI)
    with True assms(2) have "x = r"
      by simp
    with assms(3) show ?thesis by simp
  next
    case False
    with that show ?thesis by (simp add: AList.delete_eq)
  qed
  then have "list_all (\<lambda>(k, x). (k, x) \<in> set (AList.delete rid (Reservations db)) \<or> ExpiresAt x < now)
               (Reservations db)"
    unfolding list_all_iff by blast
  with kept show ?thesis
    by (simp add: purgedOnly_def)
qed

lemma wellFormed_conference:
  assumes "wellFormed db" "map_of (Reservations db) rid = Some r"
  shows "map_of (Conferences db) (r_ConferenceID r) \<noteq> None"
proof -
  from assms(2) have "(rid, r) \<in> set (Reservations db)"
    by (rule map_of_SomeD)
  with assms(1) show ?thesis
    by (auto simp: wellFormed_iff)
qed

lemma ConfirmReservation_failure:
  assumes "wellFormed db" "fst (ConfirmReservation newID now rid db) = Inl e"
  shows "e = ReservationNotFound \<and> snd (ConfirmReservation newID now rid db) = db \<or>
         e = ReservationExpired \<and> purgedOnly now db (snd (ConfirmReservation newID now rid db))"
proof (cases "map_of (Reservations db) rid")
  case None
  with assms(2) show ?thesis
    by (simp add: ConfirmReservation_def)
next
  case (Some r)
  show ?thesis
  proof (cases "ExpiresAt r < now")
    case True
    with Some assms(2) purgedOnly_delete_expired [OF assms(1) Some True] show ?thesis
      by (simp add: ConfirmReservation_def)
  next
    case False
    from wellFormed_conference [OF assms(1) Some] obtain conference
      where "map_of (Conferences db) (r_ConferenceID r) = Some conference"
      by auto
    with Some False assms(2) show ?thesis
      by (simp add: ConfirmReservation_def Let_def)
  qed
qed

subsection \<open>Claiming the head of the queue\<close>

text \<open>
  C7. A claim by a requester who is not at index 0 of the queue (whose position is not 1, the
  empty queue included) fails with \<open>NotYourTurn\<close>. A claim that fails, with that error, with
  "conference not found" or with "not enough tickets available", has removed the expired
  reservations from the ledger and changed nothing else: the queue, the conferences with
  their available tickets and the unexpired reservations are as before, so the head keeps
  its place and may try again.
\<close>

theorem ClaimNext_gating:
  "(GetQueuePosition userID conferenceID db \<noteq> 1 \<longrightarrow>
      fst (ClaimNext fmul newID now userID conferenceID db) = Inl NotYourTurn) \<and>
   (isl (fst (ClaimNext fmul newID now userID conferenceID db)) \<longrightarrow>
      fst (ClaimNext fmul newID now userID conferenceID db)
        \<in> {Inl NotYourTurn, Inl ConferenceNotFound, Inl NotEnoughTickets} \<and>
      snd (ClaimNext fmul newID now userID conferenceID db) =
        db\<lparr>Reservations := filter (\<lambda>(_, r). \<not> After now (ExpiresAt r)) (Reservations db)\<rparr> \<and>
      waitQueue conferenceID (snd (ClaimNext fmul newID now userID conferenceID db)) =
        waitQueue conferenceID db)"
  by (simp add: ClaimNext_def GetQueuePosition_def Let_def waitQueue_cleanup cleanup_fields
      split: list.splits option.splits)

theorem ClaimNext_gating_witness:
  "GetQueuePosition ''u-bob'' ''conf-1'' dbQueued \<noteq> 1 \<and>
   isl (fst (ClaimNext (env_fmul env0) ''r-1'' (3 * Second) ''u-bob'' ''conf-1'' dbQueued)) \<and>
   fst (ClaimNext (env_fmul env0) ''r-1'' (3 * Second) ''u-bob'' ''conf-1'' dbQueued) =
     Inl NotYourTurn \<and>
   waitQueue ''conf-1''
     (snd (ClaimNext (env_fmul env0) ''r-1'' (3 * Second) ''u-bob'' ''conf-1'' dbQueued)) =
   waitQueue ''conf-1'' dbQueued"
proof -
  note gating =
    ClaimNext_gating [of "''u-bob''" "''conf-1''" dbQueued "env_fmul env0" "''r-1''" "3 * Second"]
  have position: "GetQueuePosition ''u-bob'' ''conf-1'' dbQueued \<noteq> 1"
    by code_simp
  with gating have refused:
    "fst (ClaimNext (env_fmul env0) ''r-1'' (3 * Second) ''u-bob'' ''conf-1'' dbQueued) =
       Inl NotYourTurn"
    by blast
  then have failed:
    "isl (fst (ClaimNext (env_fmul env0) ''r-1'' (3 * Second) ''u-bob'' ''conf-1'' dbQueued))"
    by simp
  with gating position refused show ?thesis
    by blast
qed

subsection \<open>Confirming a reservation\<close>

text \<open>
  What \<open>ConfirmReservation\<close> returns in a store of a run: "reservation not found" when the
  ledger has no entry for the identifier; "reservation has expired", with the entry deleted,
  when the clock is strictly after \<open>ExpiresAt\<close>; and otherwise a booking with the user, the
  conference, the ticket count and the amount of the reservation, which it stores, lowering
  the available tickets of the conference by the count and deleting the reservation.
\<close>

lemma ConfirmReservation_result:
  assumes "db = run env calls (NewDatabase (env_AddDate env) (env_prices env) startTime)"
  shows
  "(map_of (Reservations db) reservationID = None \<longrightarrow>
      ConfirmReservation newID now reservationID db = (Inl ReservationNotFound, db)) \<and>
   (map_of (Reservations db) reservationID = Some reservation \<and> ExpiresAt reservation < now \<longrightarrow>
      fst (ConfirmReservation newID now reservationID db) = Inl ReservationExpired \<and>
      snd (ConfirmReservation newID now reservationID db) =
        db\<lparr>Reservations := AList.delete reservationID (Reservations db)\<rparr> \<and>
      map_of (Reservations (snd (ConfirmReservation newID now reservationID db))) reservationID =
        None) \<and>
   (map_of (Reservations db) reservationID = Some reservation \<and> now \<le> ExpiresAt reservation \<longrightarrow>
      (\<exists>conference. map_of (Conferences db) (r_ConferenceID reservation) = Some conference \<and>
      (let booking = \<lparr>b_ID = newID, b_UserID = r_UserID reservation,
                      b_ConferenceID = r_ConferenceID reservation,
                      TicketsBooked = r_TicketCount reservation,
                      b_TotalAmount = r_TotalAmount reservation,
                      Status = ''confirmed'', BookedAt = now\<rparr>;
           db' = snd (ConfirmReservation newID now reservationID db)
       in fst (ConfirmReservation newID now reservationID db) = Inr booking \<and>
          map_of (Bookings db') = (map_of (Bookings db))(newID \<mapsto> booking) \<and>
          map_of (Conferences db') =
            (map_of (Conferences db))(r_ConferenceID reservation \<mapsto>
               conference\<lparr>AvailableTickets :=
                            AvailableTickets conference - r_TicketCount reservation\<rparr>) \<and>
          map_of (Reservations db') = (map_of (Reservations db))(reservationID := None) \<and>
          Users db' = Users db \<and> WaitQueues db' = WaitQueues db)))"
proof -
  have wf: "wellFormed db"
    unfolding assms by (rule wellFormed_run) (rule wellFormed_NewDatabase)
  have "\<exists>conference. map_of (Conferences db) (r_ConferenceID reservation) = Some conference"
    if "map_of (Reservations db) reservationID = Some reservation"
    using wellFormed_conference [OF wf that] by auto
  then show ?thesis
    by (auto simp: ConfirmReservation_def Let_def update_conv' delete_conv')
qed

text \<open>
  C4 does not hold of the program. A reservation is expired from the instant \<open>ExpiresAt\<close>
  on, and the rest of the program treats it so: at that instant it is not active for the
  duplicate test of \<open>CreateReservation\<close> and is not counted by \<open>ClaimNext\<close>. Yet
  \<open>ConfirmReservation\<close>, which tests whether the clock is strictly after \<open>ExpiresAt\<close>,
  does not refuse it: confirmed at the seventeenth second, Alice's hold becomes a booking of
  75 tickets. The tickets are then sold twice: at that same instant \<open>ClaimNext\<close> grants Bob
  a ticket of the conference, and after both confirmations 76 tickets are booked out of 75
  and the available count is -1.
\<close>

theorem ConfirmReservation_at_expiry:
  "map_option ExpiresAt (map_of (Reservations dbHeld) ''r-1'') = Some (17 * Second) \<and>
   activeReservations (17 * Second) ''u-alice'' ''conf-2'' dbHeld = [] \<and>
   reserved (17 * Second) ''conf-2'' dbHeld = 0 \<and>
   map_sum id TicketsBooked (fst (ConfirmReservation ''b-1'' (17 * Second) ''r-1'' dbHeld)) = Inr 75 \<and>
   map_sum id r_TicketCount
     (fst (ClaimNext (env_fmul env0) ''r-2'' (17 * Second) ''u-bob'' ''conf-2'' dbHeldQueued)) = Inr 1 \<and>
   map_sum id TicketsBooked (fst (ConfirmReservation ''b-1'' (17 * Second) ''r-1'' dbClaimed)) = Inr 75 \<and>
   map_sum id TicketsBooked (fst (ConfirmReservation ''b-2'' (18 * Second) ''r-2'' dbLate)) = Inr 1 \<and>
   map_option TotalTickets (map_of (Conferences dbLateOversold) ''conf-2'') = Some 75 \<and>
   bookedTickets ''conf-2'' dbLateOversold = 76 \<and>
   map_option AvailableTickets (map_of (Conferences dbLateOversold) ''conf-2'') = Some (- 1)"
  by code_simp

subsection \<open>Creating a reservation\<close>

lemma reservedTickets_after_purge:
  "reservedTickets c (cleanupExpiredReservationsLocked now db) =
     sum_list (map (\<lambda>(_, r). r_TicketCount r)
       (filter (\<lambda>(_, r). r_ConferenceID r = c \<and> now \<le> ExpiresAt r) (Reservations db)))"
proof -
  have "filter (\<lambda>(_, r). r_ConferenceID r = c)
          (filter (\<lambda>(_, r). \<not> ExpiresAt r < now) (Reservations db)) =
        filter (\<lambda>(_, r). r_ConferenceID r = c \<and> now \<le> ExpiresAt r) (Reservations db)"
    unfolding filter_filter by (rule filter_cong) auto
  then show ?thesis
    by (simp add: reservedTickets_def cleanup_fields)
qed

lemma hasActiveReservation_after_purge:
  "hasActiveReservation now u c (cleanupExpiredReservationsLocked now db) =
     hasActiveReservation now u c db"
  unfolding hasActiveReservation_def cleanup_fields list_ex_iff
  by fastforce

text \<open>
  What \<open>CreateReservation\<close> returns for a conference of the catalogue and a user without an
  active reservation for it: "not enough tickets available for reservation" exactly when the
  count exceeds the available tickets minus the ticket counts of the reservations for the
  conference that the purge leaves; otherwise a new reservation that expires fifteen seconds
  after \<open>now\<close>, stored in the purged ledger. The conferences are untouched either way.
\<close>

lemma CreateReservation_result:
  assumes "map_of (Conferences db) conferenceID = Some conference"
    and "\<not> hasActiveReservation now userID conferenceID db"
  shows
    "(let held = sum_list (map (\<lambda>(_, r). r_TicketCount r)
                   (filter (\<lambda>(_, r). r_ConferenceID r = conferenceID \<and> now \<le> ExpiresAt r)
                      (Reservations db)));
          purged = filter (\<lambda>(_, r). now \<le> ExpiresAt r) (Reservations db);
          reservation = \<lparr>r_ID = newID, r_UserID = userID, r_ConferenceID = conferenceID,
                          r_TicketCount = ticketCount,
                          r_TotalAmount = fmul (Price conference) ticketCount,
                          ExpiresAt = now + 15 * Second, r_CreatedAt = now\<rparr>;
          out = CreateReservation fmul newID now userID conferenceID ticketCount db
      in (fst out = Inl NotEnoughForReservation \<longleftrightarrow>
            AvailableTickets conference - held < ticketCount) \<and>
         fst out = (if AvailableTickets conference - held < ticketCount
                    then Inl NotEnoughForReservation else Inr reservation) \<and>
         Reservations (snd out) =
           (if AvailableTickets conference - held < ticketCount then purged
            else AList.update newID reservation purged) \<and>
         Conferences (snd out) = Conferences db \<and> Bookings (snd out) = Bookings db \<and>
         WaitQueues (snd out) = WaitQueues db \<and> Users (snd out) = Users db)"
proof -
  have purge: "filter (\<lambda>(_, r). \<not> ExpiresAt r < now) (Reservations db) =
               filter (\<lambda>(_, r). now \<le> ExpiresAt r) (Reservations db)"
    by (rule filter_cong) auto
  show ?thesis
    using assms
    by (simp add: CreateReservation_def Let_def hasActiveReservation_after_purge
        reservedTickets_after_purge cleanup_fields purge)
qed

text \<open>
  C3 does not hold of the program. The purge removes a reservation only when the clock is
  strictly after \<open>ExpiresAt\<close>, and \<open>CreateReservation\<close> sums every reservation that is
  left. At the instant \<open>ExpiresAt\<close> itself a hold is expired, it is not active for the
  duplicate test of \<open>CreateReservation\<close> and is not counted by the sum \<open>reserved\<close> of
  \<open>ClaimNext\<close>, yet it is counted here. At the seventeenth second all 75 tickets of
  \<open>conf-2\<close> are available and no unexpired reservation holds any; Bob, who has no
  reservation, asks for one ticket and is refused by \<open>CreateReservation\<close>, while
  \<open>ClaimNext\<close> on the same store at the same instant grants him that ticket.
\<close>

theorem CreateReservation_at_expiry:
  "map_option ExpiresAt (map_of (Reservations dbHeldQueued) ''r-1'') = Some (17 * Second) \<and>
   map_option AvailableTickets (map_of (Conferences dbHeldQueued) ''conf-2'') = Some 75 \<and>
   \<not> hasActiveReservation (17 * Second) ''u-bob'' ''conf-2'' dbHeldQueued \<and>
   activeReservations (17 * Second) ''u-alice'' ''conf-2'' dbHeldQueued = [] \<and>
   reserved (17 * Second) ''conf-2'' dbHeldQueued = 0 \<and>
   fst (CreateReservation (env_fmul env0) ''r-2'' (17 * Second) ''u-bob'' ''conf-2'' 1 dbHeldQueued) =
     Inl NotEnoughForReservation \<and>
   map_sum id r_TicketCount
     (fst (ClaimNext (env_fmul env0) ''r-2'' (17 * Second) ''u-bob'' ''conf-2'' dbHeldQueued)) = Inr 1"
  by code_simp

subsection \<open>Users that are not stored\<close>

text \<open>
  C9, as far as it holds. Neither \<open>CreateBooking\<close> nor \<open>CreateReservation\<close> reads the
  table of users: the result is the same for every table, and it is never "user not found".
  For every \<open>userID\<close>, \<open>CreateBooking\<close> returns a booking of that user when the conference
  is in the catalogue and has the tickets, and \<open>CreateReservation\<close> returns a reservation of
  that user when the conference is in the catalogue, the \<open>userID\<close> has no active reservation
  for it and the available tickets minus the holds that the purge leaves cover the count.
\<close>

theorem CreateBooking_CreateReservation_unknown_user:
  "fst (CreateBooking fmul newID now userID conferenceID ticketCount (db\<lparr>Users := us\<rparr>)) =
     fst (CreateBooking fmul newID now userID conferenceID ticketCount db) \<and>
   fst (CreateReservation fmul newID now userID conferenceID ticketCount (db\<lparr>Users := us\<rparr>)) =
     fst (CreateReservation fmul newID now userID conferenceID ticketCount db) \<and>
   fst (CreateBooking fmul newID now userID conferenceID ticketCount db) \<noteq> Inl UserNotFound \<and>
   fst (CreateReservation fmul newID now userID conferenceID ticketCount db) \<noteq> Inl UserNotFound \<and>
   (map_of (Conferences db) conferenceID = Some conference \<and>
    ticketCount \<le> AvailableTickets conference \<longrightarrow>
      map_sum id b_UserID (fst (CreateBooking fmul newID now userID conferenceID ticketCount db)) =
        Inr userID) \<and>
   (map_of (Conferences db) conferenceID = Some conference \<and>
    \<not> hasActiveReservation now userID conferenceID db \<and>
    ticketCount \<le> AvailableTickets conference -
       sum_list (map (\<lambda>(_, r). r_TicketCount r)
         (filter (\<lambda>(_, r). r_ConferenceID r = conferenceID \<and> now \<le> ExpiresAt r)
            (Reservations db))) \<longrightarrow>
      map_sum id r_UserID
        (fst (CreateReservation fmul newID now userID conferenceID ticketCount db)) = Inr userID)"
proof -
  have "Reservations (cleanupExpiredReservationsLocked now (db\<lparr>Users := us\<rparr>)) =
        Reservations (cleanupExpiredReservationsLocked now db)"
    by (simp add: cleanup_fields)
  then have users:
    "hasActiveReservation now userID conferenceID (cleanupExpiredReservationsLocked now (db\<lparr>Users := us\<rparr>)) =
       hasActiveReservation now userID conferenceID (cleanupExpiredReservationsLocked now db)"
    "reservedTickets conferenceID (cleanupExpiredReservationsLocked now (db\<lparr>Users := us\<rparr>)) =
       reservedTickets conferenceID (cleanupExpiredReservationsLocked now db)"
    by (simp_all add: hasActiveReservation_def reservedTickets_def)
  have booking: "fst (CreateBooking fmul newID now userID conferenceID ticketCount (db\<lparr>Users := us\<rparr>)) =
     fst (CreateBooking fmul newID now userID conferenceID ticketCount db)"
    by (simp add: CreateBooking_def Let_def split: option.splits)
  have reservation:
    "fst (CreateReservation fmul newID now userID conferenceID ticketCount (db\<lparr>Users := us\<rparr>)) =
     fst (CreateReservation fmul newID now userID conferenceID ticketCount db)"
    by (simp add: CreateReservation_def Let_def users cleanup_fields split: option.splits)
  have nb: "fst (CreateBooking fmul newID now userID conferenceID ticketCount db) \<noteq> Inl UserNotFound"
    by (simp add: CreateBooking_def Let_def split: option.splits)
  have nr: "fst (CreateReservation fmul newID now userID conferenceID ticketCount db) \<noteq> Inl UserNotFound"
    by (simp add: CreateReservation_def Let_def split: option.splits)
  have sb: "map_of (Conferences db) conferenceID = Some conference \<and>
    ticketCount \<le> AvailableTickets conference \<longrightarrow>
      map_sum id b_UserID (fst (CreateBooking fmul newID now userID conferenceID ticketCount db)) =
        Inr userID"
    by (simp add: CreateBooking_def Let_def)
  have sr: "map_of (Conferences db) conferenceID = Some conference \<and>
    \<not> hasActiveReservation now userID conferenceID db \<and>
    ticketCount \<le> AvailableTickets conference -
       sum_list (map (\<lambda>(_, r). r_TicketCount r)
         (filter (\<lambda>(_, r). r_ConferenceID r = conferenceID \<and> now \<le> ExpiresAt r)
            (Reservations db))) \<longrightarrow>
      map_sum id r_UserID
        (fst (CreateReservation fmul newID now userID conferenceID ticketCount db)) = Inr userID"
    by (simp add: CreateReservation_def Let_def hasActiveReservation_after_purge
        reservedTickets_after_purge cleanup_fields)
  from booking reservation nb nr sb sr show ?thesis
    by blast
qed

text \<open>
  C9 as stated, without the condition on the active reservation, fails: an identifier that
  names no user and already holds one ticket of \<open>conf-1\<close> asks for another one; the
  conference is there and 99 tickets are free, and the call is refused as a duplicate.
\<close>

theorem CreateReservation_unknown_user_counterexample:
  "map_of (Users dbGhost) ''u-ghost'' = None \<and>
   map_option AvailableTickets (map_of (Conferences dbGhost) ''conf-1'') = Some 100 \<and>
   reservedTickets ''conf-1'' (cleanupExpiredReservationsLocked (2 * Second) dbGhost) = 1 \<and>
   fst (CreateReservation (env_fmul env0) ''r-2'' (2 * Second) ''u-ghost'' ''conf-1'' 1 dbGhost) =
     Inl AlreadyActiveReservation"
  by code_simp

theorem CreateBooking_CreateReservation_unknown_user_witness:
  "map_of (Users db0) ''u-ghost'' = None \<and>
   map_of (Conferences db0) ''conf-1'' = Some heldConference1 \<and>
   1 \<le> AvailableTickets heldConference1 \<and>
   \<not> hasActiveReservation Second ''u-ghost'' ''conf-1'' db0 \<and>
   1 \<le> AvailableTickets heldConference1 -
       sum_list (map (\<lambda>(_, r). r_TicketCount r)
         (filter (\<lambda>(_, r). r_ConferenceID r = ''conf-1'' \<and> Second \<le> ExpiresAt r)
            (Reservations db0))) \<and>
   map_sum id b_UserID (fst (CreateBooking (env_fmul env0) ''b-1'' Second ''u-ghost'' ''conf-1'' 1 db0)) =
     Inr ''u-ghost'' \<and>
   map_sum id r_UserID (fst (CreateReservation (env_fmul env0) ''b-1'' Second ''u-ghost'' ''conf-1'' 1 db0)) =
     Inr ''u-ghost''"
proof -
  have conf: "map_of (Conferences db0) ''conf-1'' = Some heldConference1"
    by code_simp
  have enough: "1 \<le> AvailableTickets heldConference1"
    by code_simp
  have free: "\<not> hasActiveReservation Second ''u-ghost'' ''conf-1'' db0"
    by code_simp
  have effective: "1 \<le> AvailableTickets heldConference1 -
       sum_list (map (\<lambda>(_, r). r_TicketCount r)
         (filter (\<lambda>(_, r). r_ConferenceID r = ''conf-1'' \<and> Second \<le> ExpiresAt r)
            (Reservations db0)))"
    by code_simp
  have unknown: "map_of (Users db0) ''u-ghost'' = None"
    by code_simp
  show ?thesis
    using conf enough free effective unknown
      CreateBooking_CreateReservation_unknown_user [where db = db0 and conferenceID = "''conf-1''"
        and conference = heldConference1 and ticketCount = 1 and now = Second
        and userID = "''u-ghost''" and fmul = "env_fmul env0" and newID = "''b-1''"]
    by blast
qed

subsection \<open>One active reservation for a user and a conference\<close>

text \<open>
  C2 does not hold of the program. \<open>ClaimNext\<close> has no test for an active reservation of the
  caller: Alice, at the head of the queue of \<open>conf-1\<close>, reserves two tickets with
  \<open>CreateReservation\<close> and one second later claims her turn; both calls return a
  reservation, and at the fifth second both are active.
\<close>

theorem ClaimNext_second_active_reservation:
  "GetQueuePosition ''u-alice'' ''conf-1'' dbQueued = 1 \<and>
   map_sum id r_ID
     (fst (CreateReservation (env_fmul env0) ''r-1'' (3 * Second) ''u-alice'' ''conf-1'' 2 dbQueued)) =
     Inr ''r-1'' \<and>
   map_sum id r_ID
     (fst (ClaimNext (env_fmul env0) ''r-2'' (4 * Second) ''u-alice'' ''conf-1'' dbDirect)) =
     Inr ''r-2'' \<and>
   map r_ID (activeReservations (5 * Second) ''u-alice'' ''conf-1'' dbDouble) = [''r-1'', ''r-2'']"
  by code_simp

subsection \<open>The capacity of a conference\<close>

text \<open>
  C1 does not hold of the program. \<open>CreateBooking\<close> compares the count with the available
  tickets only, not with the tickets on hold, and \<open>ConfirmReservation\<close> subtracts without a
  test: while Alice holds the 75 tickets of \<open>conf-2\<close>, Bob books 75 tickets, and Alice's
  confirmation then leaves 150 tickets booked out of 75 and an available count of -75.
\<close>

theorem ConfirmReservation_oversells:
  "map_of (Reservations dbHeld) ''r-1'' = Some heldReservation \<and>
   map_sum id TicketsBooked
     (fst (CreateBooking (env_fmul env0) ''b-1'' (4 * Second) ''u-bob'' ''conf-2'' 75 dbHeld)) =
     Inr 75 \<and>
   map_sum id TicketsBooked (fst (ConfirmReservation ''b-2'' (5 * Second) ''r-1'' dbBooked)) =
     Inr 75 \<and>
   map_option TotalTickets (map_of (Conferences dbOversold) ''conf-2'') = Some 75 \<and>
   bookedTickets ''conf-2'' dbOversold = 150 \<and>
   map_option AvailableTickets (map_of (Conferences dbOversold) ''conf-2'') = Some (- 75)"
  by code_simp

text \<open>
  The equation of the capacity invariant does hold: in every store that a sequence of calls
  drawing different identifiers for their bookings makes from the store of \<open>NewDatabase\<close>,
  the available tickets of a conference are its total tickets minus the tickets booked. The
  run above shows that the bound \<open>0 \<le> AvailableTickets\<close> is not kept with it.
\<close>

lemma update_fresh: "k \<notin> fst ` set xs \<Longrightarrow> AList.update k v xs = xs @ [(k, v)]"
  by (induction xs) auto

lemma bookedTickets_insert:
  assumes "newID \<notin> fst ` set (Bookings db)"
  shows "bookedTickets k (db\<lparr>Conferences := cs, Bookings := AList.update newID b (Bookings db)\<rparr>) =
         bookedTickets k db + (if b_ConferenceID b = k then TicketsBooked b else 0)"
  using assms by (simp add: bookedTickets_def update_fresh)

lemma set_update_distinct:
  assumes "distinct (map fst xs)" "(k', v') \<in> set (AList.update k v xs)"
  shows "k' = k \<and> v' = v \<or> k' \<noteq> k \<and> (k', v') \<in> set xs"
  using assms by (induction xs) (auto split: if_splits simp: image_iff)

lemma accounted_book:
  assumes acc: "accounted db"
    and conf: "map_of (Conferences db) cid = Some conference"
    and fresh: "newID \<notin> fst ` set (Bookings db)"
    and b: "b_ConferenceID b = cid" "TicketsBooked b = n"
  shows "accounted (db\<lparr>Conferences :=
                        AList.update cid (conference\<lparr>AvailableTickets := AvailableTickets conference - n\<rparr>)
                          (Conferences db),
                      Bookings := AList.update newID b (Bookings db)\<rparr>)"
proof -
  from acc have d: "distinct (map fst (Conferences db))"
    and eq: "\<And>k c. (k, c) \<in> set (Conferences db) \<Longrightarrow>
               AvailableTickets c = TotalTickets c - bookedTickets k db"
    by (auto simp: accounted_def list_all_iff)
  from conf have "(cid, conference) \<in> set (Conferences db)"
    by (rule map_of_SomeD)
  from eq [OF this] have here: "AvailableTickets conference = TotalTickets conference - bookedTickets cid db" .
  let ?cs = "AList.update cid (conference\<lparr>AvailableTickets := AvailableTickets conference - n\<rparr>) (Conferences db)"
  have "AvailableTickets c =
        TotalTickets c - (bookedTickets k db + (if b_ConferenceID b = k then TicketsBooked b else 0))"
    if "(k, c) \<in> set ?cs" for k c
    using set_update_distinct [OF d that] here b eq by auto
  then show ?thesis
    using d by (simp add: accounted_def list_all_iff bookedTickets_insert [OF fresh] distinct_update split_beta)
qed

lemma accounted_other_fields:
  "accounted (db\<lparr>Users := us\<rparr>) = accounted db"
  "accounted (db\<lparr>Reservations := rs\<rparr>) = accounted db"
  "accounted (db\<lparr>WaitQueues := qs\<rparr>) = accounted db"
  by (simp_all add: accounted_def bookedTickets_def)

lemma accounted_cleanup: "accounted (cleanupExpiredReservationsLocked now db) = accounted db"
  by (simp add: cleanupExpiredReservationsLocked_def accounted_other_fields)

lemma accounted_step:
  assumes "accounted db" "\<forall>k. bookingID_drawn c = Some k \<longrightarrow> k \<notin> fst ` set (Bookings db)"
  shows "accounted (snd (step env c db))"
proof (cases c)
  case (CallCreateUser newID now name email)
  with assms show ?thesis
    by (simp add: returning_def CreateUser_def Let_def accounted_other_fields)
next
  case (CallCreateBooking newID now userID conferenceID ticketCount)
  with assms show ?thesis
    by (simp add: returning_def CreateBooking_def Let_def accounted_book split: option.splits)
next
  case (CallCreateReservation newID now userID conferenceID ticketCount)
  with assms show ?thesis
    by (simp add: returning_def CreateReservation_def Let_def accounted_other_fields
        accounted_cleanup split: option.splits)
next
  case (CallConfirmReservation newID now reservationID)
  have "accounted (db\<lparr>Conferences := cs, Bookings := bs, Reservations := rs\<rparr>)"
    if "accounted (db\<lparr>Conferences := cs, Bookings := bs\<rparr>)" for cs bs rs
    using that by (simp add: accounted_def bookedTickets_def)
  with assms CallConfirmReservation show ?thesis
    by (simp add: returning_def ConfirmReservation_def Let_def accounted_other_fields
        accounted_book split: option.splits)
next
  case (CallCancelReservation reservationID)
  with assms show ?thesis
    by (simp add: returning_def CancelReservation_def accounted_other_fields split: option.splits)
next
  case (CallGetReservation now reservationID)
  with assms show ?thesis
    by (simp add: returning_def GetReservation_def Let_def accounted_cleanup split: option.splits)
next
  case (CallGetUserReservations now userID)
  with assms show ?thesis
    by (simp add: GetUserReservations_def Let_def accounted_cleanup)
next
  case (CallEnqueueWait newID now userID conferenceID ticketCount)
  with assms show ?thesis
    by (simp add: EnqueueWait_def Let_def accounted_other_fields split: option.splits)
next
  case (CallClaimNext newID now userID conferenceID)
  have "accounted (db\<lparr>Reservations := rs, WaitQueues := qs\<rparr>) = accounted db" for rs qs
    by (simp add: accounted_def bookedTickets_def)
  with assms CallClaimNext show ?thesis
    by (simp add: returning_def ClaimNext_def Let_def cleanupExpiredReservationsLocked_def
        accounted_other_fields split: option.splits list.splits)
next
  case (CallResetDatabase now)
  then show ?thesis
    by (simp add: ResetDatabase_def addSampleData_def accounted_def bookedTickets_def
        split: prod.splits)
qed (use assms in simp_all)

lemma Bookings_step:
  "fst ` set (Bookings (snd (step env c db))) \<subseteq>
     fst ` set (Bookings db) \<union> set_option (bookingID_drawn c)"
proof (cases c)
  case (CallCreateBooking newID now userID conferenceID ticketCount)
  then show ?thesis
    by (auto simp: returning_def CreateBooking_def Let_def dom_update split: option.splits)
next
  case (CallConfirmReservation newID now reservationID)
  then show ?thesis
    by (auto simp: returning_def ConfirmReservation_def Let_def dom_update split: option.splits)
next
  case (CallCreateUser newID now name email)
  then show ?thesis by (simp add: returning_def CreateUser_def Let_def)
next
  case (CallCreateReservation newID now userID conferenceID ticketCount)
  then show ?thesis
    by (simp add: returning_def CreateReservation_def Let_def cleanup_fields split: option.splits)
next
  case (CallCancelReservation reservationID)
  then show ?thesis by (simp add: returning_def CancelReservation_def split: option.splits)
next
  case (CallGetReservation now reservationID)
  then show ?thesis
    by (simp add: returning_def GetReservation_def Let_def cleanup_fields split: option.splits)
next
  case (CallGetUserReservations now userID)
  then show ?thesis by (simp add: GetUserReservations_def Let_def cleanup_fields)
next
  case (CallEnqueueWait newID now userID conferenceID ticketCount)
  then show ?thesis by (simp add: EnqueueWait_def Let_def split: option.splits)
next
  case (CallClaimNext newID now userID conferenceID)
  then show ?thesis
    by (simp add: returning_def ClaimNext_def Let_def cleanup_fields split: option.splits list.splits)
next
  case (CallResetDatabase now)
  then show ?thesis
    by (simp add: ResetDatabase_def addSampleData_def split: prod.splits)
qed simp_all

lemma accounted_run:
  assumes "accounted db" "distinct (List.map_filter bookingID_drawn cs)"
    "set (List.map_filter bookingID_drawn cs) \<inter> fst ` set (Bookings db) = {}"
  shows "accounted (run env cs db)"
  using assms
proof (induction cs arbitrary: db)
  case Nil
  then show ?case by simp
next
  case (Cons c cs)
  let ?db = "snd (step env c db)"
  have fresh: "\<forall>k. bookingID_drawn c = Some k \<longrightarrow> k \<notin> fst ` set (Bookings db)"
  proof (intro allI impI)
    fix k
    assume "bookingID_drawn c = Some k"
    then have "k \<in> set (List.map_filter bookingID_drawn (c # cs))"
      by (simp add: List.map_filter_simps)
    with Cons.prems(3) show "k \<notin> fst ` set (Bookings db)"
      by blast
  qed
  have 1: "accounted ?db"
    using Cons.prems(1) fresh by (rule accounted_step)
  have 2: "distinct (List.map_filter bookingID_drawn cs)"
    using Cons.prems(2) by (auto simp: List.map_filter_simps split: option.splits)
  have 3: "set (List.map_filter bookingID_drawn cs) \<inter> fst ` set (Bookings ?db) = {}"
  proof -
    have "set (List.map_filter bookingID_drawn cs) \<inter> fst ` set (Bookings db) = {}"
      using Cons.prems(3) by (auto simp: List.map_filter_simps split: option.splits)
    moreover have "set (List.map_filter bookingID_drawn cs) \<inter> set_option (bookingID_drawn c) = {}"
      using Cons.prems(2) by (auto simp: List.map_filter_simps split: option.splits)
    ultimately show ?thesis
      using Bookings_step [of env c db] by blast
  qed
  from Cons.IH [OF 1 2 3] show ?case
    by simp
qed

lemma accounted_NewDatabase: "accounted (NewDatabase AddDate prices now)"
  by (simp add: NewDatabase_def addSampleData_def accounted_def bookedTickets_def split: prod.splits)

lemma capacity_equation:
  assumes "distinct (List.map_filter bookingID_drawn calls)"
    and "db = run env calls (NewDatabase (env_AddDate env) (env_prices env) startTime)"
    and "map_of (Conferences db) conferenceID = Some conference"
  shows "AvailableTickets conference = TotalTickets conference - bookedTickets conferenceID db"
proof -
  have "accounted db"
    unfolding assms(2) using accounted_NewDatabase assms(1)
    by (rule accounted_run) (simp add: NewDatabase_def addSampleData_def split: prod.splits)
  moreover from assms(3) have "(conferenceID, conference) \<in> set (Conferences db)"
    by (rule map_of_SomeD)
  ultimately show ?thesis
    by (auto simp: accounted_def list_all_iff)
qed

subsection \<open>The order of the queue\<close>

lemma findUser_None: "findUser u q = None \<longleftrightarrow> u \<notin> w_UserID ` set q"
  by (induction q) auto

lemma findUser_map_entryOf:
  "distinct (map e_userID es) \<Longrightarrow> i < length es \<Longrightarrow>
   findUser (e_userID (es ! i)) (map (entryOf c) es) = Some i"
proof (induction es arbitrary: i)
  case Nil
  then show ?case by simp
next
  case (Cons e es)
  show ?case
  proof (cases i)
    case 0
    then show ?thesis by (simp add: entryOf_def)
  next
    case (Suc j)
    with Cons.prems have "e_userID (es ! j) \<in> set (map e_userID es)" "e_userID e \<notin> set (map e_userID es)"
      by auto
    then have "e_userID e \<noteq> e_userID (es ! j)"
      by metis
    with Cons Suc show ?thesis
      by (simp add: entryOf_def)
  qed
qed

lemma waitQueue_update:
  "waitQueue c (db\<lparr>WaitQueues := AList.update c' q (WaitQueues db)\<rparr>) =
     (if c = c' then q else waitQueue c db)"
  by (simp add: waitQueue_def update_conv')

lemma waitQueue_EnqueueWait_new:
  "findUser (e_userID e) (waitQueue c db) = None \<Longrightarrow>
   waitQueue c (snd (EnqueueWait (e_newID e) (e_now e) (e_userID e) c (e_ticketCount e) db)) =
     waitQueue c db @ [entryOf c e]"
  by (simp add: EnqueueWait_def Let_def waitQueue_update entryOf_def)

lemma waitQueue_enqueueAll:
  "distinct (map e_userID es) \<Longrightarrow> set (map e_userID es) \<inter> w_UserID ` set (waitQueue c db) = {} \<Longrightarrow>
   waitQueue c (enqueueAll c es db) = waitQueue c db @ map (entryOf c) es"
proof (induction es arbitrary: db)
  case Nil
  then show ?case by simp
next
  case (Cons e es)
  from Cons.prems have new: "findUser (e_userID e) (waitQueue c db) = None"
    by (auto simp: findUser_None)
  let ?db = "snd (EnqueueWait (e_newID e) (e_now e) (e_userID e) c (e_ticketCount e) db)"
  have q: "waitQueue c ?db = waitQueue c db @ [entryOf c e]"
    using new by (rule waitQueue_EnqueueWait_new)
  have "set (map e_userID es) \<inter> w_UserID ` set (waitQueue c ?db) = {}"
    using Cons.prems by (auto simp: q entryOf_def)
  moreover have "distinct (map e_userID es)"
    using Cons.prems by simp
  ultimately have "waitQueue c (enqueueAll c es ?db) = waitQueue c ?db @ map (entryOf c) es"
    by (rule Cons.IH[rotated])
  then show ?case
    by (simp add: q)
qed

lemma waitQueue_enqueueAll_empty:
  "waitQueue c db = [] \<Longrightarrow> distinct (map e_userID es) \<Longrightarrow>
   waitQueue c (enqueueAll c es db) = map (entryOf c) es"
  using waitQueue_enqueueAll [of es c db] by simp

lemma ClaimNext_success:
  assumes "fst (ClaimNext fmul newID now userID c db) = Inr res"
  shows "waitQueue c db \<noteq> [] \<and> w_UserID (hd (waitQueue c db)) = userID \<and>
         waitQueue c (snd (ClaimNext fmul newID now userID c db)) = tl (waitQueue c db)"
  using assms
  by (auto simp: ClaimNext_def Let_def waitQueue_cleanup cleanup_fields waitQueue_def update_conv'
      split: list.splits option.splits if_splits)

text \<open>
  C6. Let N users, all different, enqueue one after the other on the empty queue of a
  conference. The i-th call of \<open>EnqueueWait\<close> returns i, and after the N calls
  \<open>GetQueuePosition\<close> returns i for the i-th user (counting from 1): the positions are 1..N
  in the order of the enqueues. When a claim on that queue then succeeds, the claimer is the
  first user, who is no longer in the queue, and the position of every other user is lower by
  exactly 1.
\<close>

theorem queue_fairness:
  assumes "waitQueue conferenceID db = []"
    and "distinct (map e_userID es)"
  shows
    "(\<forall>i<length es.
        fst (EnqueueWait (e_newID (es ! i)) (e_now (es ! i)) (e_userID (es ! i)) conferenceID
               (e_ticketCount (es ! i)) (enqueueAll conferenceID (take i es) db)) = int i + 1 \<and>
        GetQueuePosition (e_userID (es ! i)) conferenceID (enqueueAll conferenceID es db) =
          int i + 1) \<and>
     (\<not> isl (fst (ClaimNext fmul newID now userID conferenceID (enqueueAll conferenceID es db))) \<longrightarrow>
        es \<noteq> [] \<and> userID = e_userID (es ! 0) \<and>
        GetQueuePosition userID conferenceID
          (snd (ClaimNext fmul newID now userID conferenceID (enqueueAll conferenceID es db))) = 0 \<and>
        (\<forall>i<length es. 0 < i \<longrightarrow>
           GetQueuePosition (e_userID (es ! i)) conferenceID
             (snd (ClaimNext fmul newID now userID conferenceID (enqueueAll conferenceID es db))) =
           GetQueuePosition (e_userID (es ! i)) conferenceID (enqueueAll conferenceID es db) - 1))"
proof -
  let ?db = "enqueueAll conferenceID es db"
  have q: "waitQueue conferenceID ?db = map (entryOf conferenceID) es"
    using assms by (rule waitQueue_enqueueAll_empty)
  have pos: "GetQueuePosition (e_userID (es ! i)) conferenceID ?db = int i + 1" if "i < length es" for i
    using that assms(2) by (simp add: GetQueuePosition_def q findUser_map_entryOf)
  have ret: "fst (EnqueueWait (e_newID (es ! i)) (e_now (es ! i)) (e_userID (es ! i)) conferenceID
               (e_ticketCount (es ! i)) (enqueueAll conferenceID (take i es) db)) = int i + 1"
    if i: "i < length es" for i
  proof -
    have d: "distinct (map e_userID (take i es))"
      using assms(2) by (simp add: distinct_take take_map[symmetric])
    have qi: "waitQueue conferenceID (enqueueAll conferenceID (take i es) db) =
              map (entryOf conferenceID) (take i es)"
      using assms(1) d by (rule waitQueue_enqueueAll_empty)
    have "e_userID (es ! i) \<notin> set (map e_userID (take i es))"
    proof
      assume "e_userID (es ! i) \<in> set (map e_userID (take i es))"
      then obtain j where j: "j < i" "e_userID (es ! j) = e_userID (es ! i)"
        using i by (auto simp: in_set_conv_nth)
      with i assms(2) have "j = i"
        by (metis (no_types, lifting) distinct_conv_nth length_map less_trans nth_map)
      with j show False by simp
    qed
    then have "findUser (e_userID (es ! i)) (map (entryOf conferenceID) (take i es)) = None"
      by (auto simp: findUser_None entryOf_def image_iff)
    then show ?thesis
      using i by (simp add: EnqueueWait_def Let_def qi)
  qed
  have claim: "es \<noteq> [] \<and> userID = e_userID (es ! 0) \<and>
        GetQueuePosition userID conferenceID
          (snd (ClaimNext fmul newID now userID conferenceID ?db)) = 0 \<and>
        (\<forall>i<length es. 0 < i \<longrightarrow>
           GetQueuePosition (e_userID (es ! i)) conferenceID
             (snd (ClaimNext fmul newID now userID conferenceID ?db)) =
           GetQueuePosition (e_userID (es ! i)) conferenceID ?db - 1)"
    if ok: "\<not> isl (fst (ClaimNext fmul newID now userID conferenceID ?db))"
  proof -
    from ok obtain res where "fst (ClaimNext fmul newID now userID conferenceID ?db) = Inr res"
      by (cases "fst (ClaimNext fmul newID now userID conferenceID ?db)") auto
    from ClaimNext_success [OF this]
    have ne: "es \<noteq> []" and hd: "w_UserID (hd (map (entryOf conferenceID) es)) = userID"
      and tl: "waitQueue conferenceID (snd (ClaimNext fmul newID now userID conferenceID ?db)) =
               map (entryOf conferenceID) (tl es)"
      by (auto simp: q map_tl)
    from ne obtain e es' where es: "es = e # es'"
      by (cases es) auto
    have u: "userID = e_userID e"
      using hd es by (simp add: entryOf_def)
    have d': "distinct (map e_userID es')" and notin: "e_userID e \<notin> set (map e_userID es')"
      using assms(2) es by auto
    have gone: "findUser userID (map (entryOf conferenceID) es') = None"
      using notin by (auto simp: findUser_None u entryOf_def image_iff)
    have shift: "GetQueuePosition (e_userID (es ! i)) conferenceID
             (snd (ClaimNext fmul newID now userID conferenceID ?db)) =
           GetQueuePosition (e_userID (es ! i)) conferenceID ?db - 1"
      if "i < length es" "0 < i" for i
    proof -
      from that obtain j where j: "i = Suc j" "j < length es'"
        using es by (cases i) auto
      have found: "findUser (e_userID (es' ! j)) (map (entryOf conferenceID) es') = Some j"
        using d' j(2) by (rule findUser_map_entryOf)
      have nth: "es ! i = es' ! j" and rest: "tl es = es'"
        using j es by simp_all
      have "GetQueuePosition (e_userID (es ! i)) conferenceID
             (snd (ClaimNext fmul newID now userID conferenceID ?db)) = int j + 1"
        by (simp add: GetQueuePosition_def tl rest nth found)
      with pos [OF that(1)] j(1) show ?thesis
        by simp
    qed
    have rest: "tl es = es'" and first: "es ! 0 = e"
      using es by simp_all
    have "GetQueuePosition userID conferenceID
          (snd (ClaimNext fmul newID now userID conferenceID ?db)) = 0"
      by (simp add: GetQueuePosition_def tl rest gone)
    with ne u first shift show ?thesis
      by simp
  qed
  from pos ret claim show ?thesis
    by blast
qed

theorem queue_fairness_witness:
  "waitQueue ''conf-1'' db0 = [] \<and> distinct (map e_userID threeEnqueues) \<and>
   GetQueuePosition ''u-alice'' ''conf-1'' (enqueueAll ''conf-1'' threeEnqueues db0) = 1 \<and>
   GetQueuePosition ''u-bob'' ''conf-1'' (enqueueAll ''conf-1'' threeEnqueues db0) = 2 \<and>
   GetQueuePosition ''u-carol'' ''conf-1'' (enqueueAll ''conf-1'' threeEnqueues db0) = 3 \<and>
   \<not> isl (fst (ClaimNext (env_fmul env0) ''r-1'' (4 * Second) ''u-alice'' ''conf-1''
                 (enqueueAll ''conf-1'' threeEnqueues db0))) \<and>
   GetQueuePosition ''u-carol'' ''conf-1''
     (snd (ClaimNext (env_fmul env0) ''r-1'' (4 * Second) ''u-alice'' ''conf-1''
            (enqueueAll ''conf-1'' threeEnqueues db0))) = 2"
proof -
  have empty: "waitQueue ''conf-1'' db0 = []"
    by code_simp
  have users: "distinct (map e_userID threeEnqueues)"
    by code_simp
  have claimed: "\<not> isl (fst (ClaimNext (env_fmul env0) ''r-1'' (4 * Second) ''u-alice'' ''conf-1''
                 (enqueueAll ''conf-1'' threeEnqueues db0)))"
    by code_simp
  have len: "length threeEnqueues = 3" "e_userID (threeEnqueues ! 0) = ''u-alice''"
    "e_userID (threeEnqueues ! 1) = ''u-bob''" "e_userID (threeEnqueues ! 2) = ''u-carol''"
    by (simp_all add: threeEnqueues_def)
  note fair = queue_fairness [OF empty users, where fmul = "env_fmul env0" and newID = "''r-1''"
      and now = "4 * Second" and userID = "''u-alice''"]
  from fair have "\<forall>i<3. GetQueuePosition (e_userID (threeEnqueues ! i)) ''conf-1''
       (enqueueAll ''conf-1'' threeEnqueues db0) = int i + 1"
    by (simp add: len)
  then have before: "GetQueuePosition ''u-alice'' ''conf-1'' (enqueueAll ''conf-1'' threeEnqueues db0) = 1"
    "GetQueuePosition ''u-bob'' ''conf-1'' (enqueueAll ''conf-1'' threeEnqueues db0) = 2"
    "GetQueuePosition ''u-carol'' ''conf-1'' (enqueueAll ''conf-1'' threeEnqueues db0) = 3"
    using len by (fastforce dest: spec [of _ 0], fastforce dest: spec [of _ 1], fastforce dest: spec [of _ 2])
  from fair claimed have "\<forall>i<3. 0 < i \<longrightarrow>
           GetQueuePosition (e_userID (threeEnqueues ! i)) ''conf-1''
             (snd (ClaimNext (env_fmul env0) ''r-1'' (4 * Second) ''u-alice'' ''conf-1''
                (enqueueAll ''conf-1'' threeEnqueues db0))) =
           GetQueuePosition (e_userID (threeEnqueues ! i)) ''conf-1''
             (enqueueAll ''conf-1'' threeEnqueues db0) - 1"
    by (simp add: len)
  then have "GetQueuePosition ''u-carol'' ''conf-1''
             (snd (ClaimNext (env_fmul env0) ''r-1'' (4 * Second) ''u-alice'' ''conf-1''
                (enqueueAll ''conf-1'' threeEnqueues db0))) = 2"
    using len before by (fastforce dest: spec [of _ 2])
  with empty users claimed before show ?thesis
    by blast
qed

subsection \<open>A reservation that is gone stays gone\<close>

lemma map_of_filter_None: "map_of xs k = None \<Longrightarrow> map_of (filter P xs) k = None"
  by (auto simp: map_of_eq_None_iff)

lemma map_of_delete_same: "map_of (AList.delete k xs) k = None"
  by (simp add: delete_conv')

lemma absent_cleanup:
  "map_of (Reservations db) rid = None \<Longrightarrow>
   map_of (Reservations (cleanupExpiredReservationsLocked now db)) rid = None"
  by (simp add: cleanup_fields map_of_filter_None)

lemma absent_CreateReservation:
  assumes "map_of (Reservations db) rid = None" "newID \<noteq> rid"
  shows "map_of (Reservations (snd (CreateReservation fmul newID now u c n db))) rid = None"
  using absent_cleanup [OF assms(1), of now] assms(2)
  by (simp add: CreateReservation_def Let_def update_conv' cleanup_fields split: option.splits)

lemma absent_ClaimNext:
  assumes "map_of (Reservations db) rid = None" "newID \<noteq> rid"
  shows "map_of (Reservations (snd (ClaimNext fmul newID now u c db))) rid = None"
  using absent_cleanup [OF assms(1), of now] assms(2)
  by (simp add: ClaimNext_def Let_def update_conv' cleanup_fields split: option.splits list.splits)

lemma absent_ConfirmReservation:
  assumes "map_of (Reservations db) rid = None"
  shows "map_of (Reservations (snd (ConfirmReservation newID now rid' db))) rid = None"
  using assms
  by (auto simp: ConfirmReservation_def Let_def delete_conv' split: option.splits)

lemma absent_CancelReservation:
  assumes "map_of (Reservations db) rid = None"
  shows "map_of (Reservations (snd (CancelReservation rid' db))) rid = None"
  using assms
  by (simp add: CancelReservation_def delete_conv' split: option.splits)

lemma absent_step:
  assumes "map_of (Reservations db) rid = None" "reservationID_drawn c \<noteq> Some rid"
  shows "map_of (Reservations (snd (step env c db))) rid = None"
proof (cases c)
  case (CallCreateUser newID now name email)
  with assms show ?thesis by (simp add: returning_def CreateUser_def Let_def)
next
  case (CallCreateBooking newID now userID conferenceID ticketCount)
  with assms show ?thesis
    by (simp add: returning_def CreateBooking_def Let_def split: option.splits)
next
  case (CallCreateReservation newID now userID conferenceID ticketCount)
  with assms show ?thesis by (simp add: returning_def absent_CreateReservation)
next
  case (CallConfirmReservation newID now reservationID)
  with assms show ?thesis by (simp add: returning_def absent_ConfirmReservation)
next
  case (CallCancelReservation reservationID)
  with assms show ?thesis by (simp add: returning_def absent_CancelReservation)
next
  case (CallGetReservation now reservationID)
  with assms show ?thesis
    by (simp add: returning_def GetReservation_def Let_def absent_cleanup split: option.splits)
next
  case (CallGetUserReservations now userID)
  with assms show ?thesis by (simp add: GetUserReservations_def Let_def absent_cleanup)
next
  case (CallEnqueueWait newID now userID conferenceID ticketCount)
  with assms show ?thesis by (simp add: EnqueueWait_def Let_def split: option.splits)
next
  case (CallClaimNext newID now userID conferenceID)
  with assms show ?thesis by (simp add: returning_def absent_ClaimNext)
next
  case (CallResetDatabase now)
  with assms show ?thesis
    by (simp add: ResetDatabase_def addSampleData_def Let_def split: prod.splits)
qed (use assms in simp_all)

lemma absent_run:
  assumes "map_of (Reservations db) rid = None" "rid \<notin> set (List.map_filter reservationID_drawn cs)"
  shows "map_of (Reservations (run env cs db)) rid = None"
  using assms
proof (induction cs arbitrary: db)
  case Nil
  then show ?case by simp
next
  case (Cons c cs)
  from Cons.prems(2) have c: "reservationID_drawn c \<noteq> Some rid"
    and cs: "rid \<notin> set (List.map_filter reservationID_drawn cs)"
    by (auto simp: List.map_filter_simps split: option.splits)
  from Cons.prems(1) c have "map_of (Reservations (snd (step env c db))) rid = None"
    by (rule absent_step)
  then show ?case
    using cs by (simp add: Cons.IH)
qed

lemma absent_NotFound:
  assumes "map_of (Reservations db) rid = None"
  shows "ConfirmReservation newID now rid db = (Inl ReservationNotFound, db)"
    and "CancelReservation rid db = (Inl ReservationNotFound, db)"
    and "fst (GetReservation now rid db) = Inl ReservationNotFound"
  using assms absent_cleanup [OF assms, of now]
  by (simp_all add: ConfirmReservation_def CancelReservation_def GetReservation_def Let_def)

lemma removed_by_ConfirmReservation:
  "fst (ConfirmReservation newID now rid db) \<noteq> Inl NilPointerDereference \<Longrightarrow>
   map_of (Reservations (snd (ConfirmReservation newID now rid db))) rid = None"
  by (auto simp: ConfirmReservation_def Let_def map_of_delete_same split: option.splits if_splits)

lemma removed_by_CancelReservation:
  "map_of (Reservations (snd (CancelReservation rid db))) rid = None"
  by (simp add: CancelReservation_def map_of_delete_same split: option.splits)

lemma purge_removes:
  assumes "distinct (map fst xs)" "map_of xs k = Some r" "\<not> P (k, r)"
  shows "map_of (filter P xs) k = None"
proof -
  have "r' = r" if "(k, r') \<in> set xs" for r'
    using map_of_is_SomeI [OF assms(1) that] assms(2) by simp
  with assms(3) have "k \<notin> fst ` set (filter P xs)"
    by auto
  then show ?thesis
    by (simp add: map_of_eq_None_iff)
qed

lemma expired_cleanup:
  assumes "wellFormed db" "map_of (Reservations db) rid = Some reservation"
    "ExpiresAt reservation < t"
  shows "map_of (Reservations (cleanupExpiredReservationsLocked t db)) rid = None"
proof -
  from assms(1) have "distinct (map fst (Reservations db))"
    by (simp add: wellFormed_def)
  from purge_removes [OF this assms(2), of "\<lambda>(_, r). \<not> ExpiresAt r < t"] assms(3)
  show ?thesis
    by (simp add: cleanup_fields)
qed

text \<open>
  C5, as far as it holds. In a store of a run, take a reservation identifier and a call of
  \<open>CancelReservation\<close> or \<open>ConfirmReservation\<close> on it, whatever it returns, followed by any
  sequence of calls that draw other identifiers for their reservations. After them
  \<open>ConfirmReservation\<close>, \<open>CancelReservation\<close> and \<open>GetReservation\<close> on the identifier
  all fail with "reservation not found"; with the empty sequence this is the second
  confirmation or cancellation. \<open>ConfirmReservation\<close> at an instant strictly after
  \<open>ExpiresAt\<close> fails with "reservation has expired" when the entry is still in the ledger;
  when a purge made after \<open>ExpiresAt\<close> has removed it, here the purge of \<open>GetReservation\<close>,
  it fails with "reservation not found".
\<close>

theorem reservation_gone_for_good:
  assumes "db = run env calls (NewDatabase (env_AddDate env) (env_prices env) startTime)"
    and "rid \<notin> set (List.map_filter reservationID_drawn later)"
    and "db' = run env later (snd (CancelReservation rid db)) \<or>
         db' = run env later (snd (ConfirmReservation newID now rid db))"
  shows
    "(map_of (Reservations db) rid = Some reservation \<and> ExpiresAt reservation < now \<longrightarrow>
        fst (ConfirmReservation newID now rid db) = Inl ReservationExpired) \<and>
     (map_of (Reservations db) rid = Some reservation \<and> ExpiresAt reservation < t \<longrightarrow>
        fst (GetReservation t rid db) = Inl ReservationNotFound \<and>
        fst (ConfirmReservation newID now rid (snd (GetReservation t rid db))) =
          Inl ReservationNotFound) \<and>
     ConfirmReservation newID' now' rid db' = (Inl ReservationNotFound, db') \<and>
     CancelReservation rid db' = (Inl ReservationNotFound, db') \<and>
     fst (GetReservation now' rid db') = Inl ReservationNotFound"
proof -
  have wf: "wellFormed db"
    unfolding assms(1) by (rule wellFormed_run) (rule wellFormed_NewDatabase)
  have returned: "fst (ConfirmReservation newID now rid db) \<noteq> Inl NilPointerDereference"
    using ConfirmReservation_failure [OF wf, of newID now rid NilPointerDereference] by auto
  have expired: "map_of (Reservations db) rid = Some reservation \<and> ExpiresAt reservation < now \<longrightarrow>
        fst (ConfirmReservation newID now rid db) = Inl ReservationExpired"
    by (simp add: ConfirmReservation_def)
  have purged: "fst (GetReservation t rid db) = Inl ReservationNotFound \<and>
        fst (ConfirmReservation newID now rid (snd (GetReservation t rid db))) =
          Inl ReservationNotFound"
    if "map_of (Reservations db) rid = Some reservation" "ExpiresAt reservation < t"
    using expired_cleanup [OF wf that]
    by (simp add: GetReservation_def Let_def ConfirmReservation_def)
  from assms(3) have "map_of (Reservations db') rid = None"
  proof
    assume "db' = run env later (snd (CancelReservation rid db))"
    with absent_run [OF removed_by_CancelReservation assms(2)] show ?thesis
      by simp
  next
    assume "db' = run env later (snd (ConfirmReservation newID now rid db))"
    with absent_run [OF removed_by_ConfirmReservation [OF returned] assms(2)] show ?thesis
      by simp
  qed
  with expired purged show ?thesis
    by (simp add: absent_NotFound)
qed

text \<open>
  C5 as stated fails: a confirmation after the hold window has elapsed does not yield
  "reservation has expired" when a call has purged the ledger in between. Alice's hold
  expires at the seventeenth second; \<open>GetReservation\<close> at the eighteenth removes it, and the
  confirmation at the nineteenth finds no reservation.
\<close>

theorem ConfirmReservation_after_purge_counterexample:
  "map_option ExpiresAt (map_of (Reservations dbHeld) ''r-1'') = Some (17 * Second) \<and>
   fst (GetReservation (18 * Second) ''r-1'' dbHeld) = Inl ReservationNotFound \<and>
   fst (ConfirmReservation ''b-1'' (19 * Second) ''r-1''
          (snd (GetReservation (18 * Second) ''r-1'' dbHeld))) = Inl ReservationNotFound"
  by code_simp

theorem reservation_gone_for_good_witness:
  "dbHeld =
     run env0 [CallCreateUser ''u-alice'' Second ''Alice'' ''Alice@Example.com'',
               CallCreateReservation ''r-1'' (2 * Second) ''u-alice'' ''conf-2'' 75]
       (NewDatabase (env_AddDate env0) (env_prices env0) 0) \<and>
   ''r-1'' \<notin> set (List.map_filter reservationID_drawn laterCalls) \<and>
   map_of (Reservations dbHeld) ''r-1'' = Some heldReservation \<and>
   ExpiresAt heldReservation < 18 * Second \<and>
   fst (ConfirmReservation ''b-1'' (18 * Second) ''r-1'' dbHeld) = Inl ReservationExpired \<and>
   fst (ConfirmReservation ''b-1'' (18 * Second) ''r-1''
          (snd (GetReservation (18 * Second) ''r-1'' dbHeld))) = Inl ReservationNotFound \<and>
   fst (ConfirmReservation ''b-2'' (30 * Second) ''r-1''
          (run env0 laterCalls (snd (ConfirmReservation ''b-1'' (18 * Second) ''r-1'' dbHeld)))) =
     Inl ReservationNotFound \<and>
   fst (CancelReservation ''r-1'' (run env0 laterCalls (snd (CancelReservation ''r-1'' dbHeld)))) =
     Inl ReservationNotFound \<and>
   fst (GetReservation (30 * Second) ''r-1''
          (run env0 laterCalls (snd (CancelReservation ''r-1'' dbHeld)))) =
     Inl ReservationNotFound"
proof -
  have reached: "dbHeld =
     run env0 [CallCreateUser ''u-alice'' Second ''Alice'' ''Alice@Example.com'',
               CallCreateReservation ''r-1'' (2 * Second) ''u-alice'' ''conf-2'' 75]
       (NewDatabase (env_AddDate env0) (env_prices env0) 0)"
    by (simp only: dbHeld_def db0_def)
  have fresh: "''r-1'' \<notin> set (List.map_filter reservationID_drawn laterCalls)"
    by code_simp
  have present: "map_of (Reservations dbHeld) ''r-1'' = Some heldReservation"
    by code_simp
  have late: "ExpiresAt heldReservation < 18 * Second"
    by code_simp
  note confirmed =
    reservation_gone_for_good [OF reached fresh, where newID = "''b-1''"
      and now = "18 * Second" and reservation = heldReservation and newID' = "''b-2''"
      and now' = "30 * Second" and t = "18 * Second"
      and db' = "run env0 laterCalls (snd (ConfirmReservation ''b-1'' (18 * Second) ''r-1'' dbHeld))"]
  note cancelled =
    reservation_gone_for_good [OF reached fresh, where newID = "''b-1''"
      and now = "18 * Second" and reservation = heldReservation and newID' = "''b-2''"
      and now' = "30 * Second"
      and db' = "run env0 laterCalls (snd (CancelReservation ''r-1'' dbHeld))"]
  from confirmed present late
  have "fst (ConfirmReservation ''b-1'' (18 * Second) ''r-1'' dbHeld) = Inl ReservationExpired"
    and "fst (ConfirmReservation ''b-1'' (18 * Second) ''r-1''
          (snd (GetReservation (18 * Second) ''r-1'' dbHeld))) = Inl ReservationNotFound"
    and "fst (ConfirmReservation ''b-2'' (30 * Second) ''r-1''
          (run env0 laterCalls (snd (ConfirmReservation ''b-1'' (18 * Second) ''r-1'' dbHeld)))) =
     Inl ReservationNotFound"
    by simp_all
  moreover from cancelled
  have "fst (CancelReservation ''r-1'' (run env0 laterCalls (snd (CancelReservation ''r-1'' dbHeld)))) =
     Inl ReservationNotFound"
    and "fst (GetReservation (30 * Second) ''r-1''
          (run env0 laterCalls (snd (CancelReservation ''r-1'' dbHeld)))) =
     Inl ReservationNotFound"
    by simp_all
  ultimately show ?thesis
    using reached fresh present late by blast
qed

subsection \<open>Calls return, and a failed call changes nothing but expired reservations\<close>

lemma step_error_kinds:
  assumes "wellFormed db" "fst (step env c db) = Inl e"
  shows "e \<in> set (errorsOf c)"
proof (cases c)
  case (CallConfirmReservation newID now reservationID)
  with assms(2) have "fst (ConfirmReservation newID now reservationID db) = Inl e"
    by (cases "fst (ConfirmReservation newID now reservationID db)") (simp_all add: returning_def)
  from ConfirmReservation_failure [OF assms(1) this] CallConfirmReservation show ?thesis
    by auto
next
  case (CallCreateUser newID now name email)
  with assms(2) show ?thesis
    by (simp add: returning_def CreateUser_def Let_def split: if_splits)
next
  case (CallCreateBooking newID now userID conferenceID ticketCount)
  with assms(2) show ?thesis
    by (simp add: returning_def CreateBooking_def Let_def split: option.splits if_splits)
next
  case (CallCreateReservation newID now userID conferenceID ticketCount)
  with assms(2) show ?thesis
    by (simp add: returning_def CreateReservation_def Let_def split: option.splits if_splits)
next
  case (CallClaimNext newID now userID conferenceID)
  with assms(2) show ?thesis
    by (simp add: returning_def ClaimNext_def Let_def split: option.splits if_splits list.splits)
next
  case (CallCancelReservation reservationID)
  with assms(2) show ?thesis
    by (simp add: returning_def CancelReservation_def split: option.splits)
next
  case (CallGetReservation now reservationID)
  with assms(2) show ?thesis
    by (simp add: returning_def GetReservation_def Let_def split: option.splits)
next
  case (CallGetUser userID)
  with assms(2) show ?thesis by (simp add: GetUser_def split: option.splits)
next
  case (CallGetConference conferenceID)
  with assms(2) show ?thesis by (simp add: GetConference_def split: option.splits)
qed (use assms(2) in simp_all)

lemma step_failure_frame:
  assumes "wellFormed db" "fst (step env c db) = Inl e"
  shows "unchangedButPurged c db (snd (step env c db))"
proof (cases c)
  case (CallConfirmReservation newID now reservationID)
  with assms(2) have "fst (ConfirmReservation newID now reservationID db) = Inl e"
    by (cases "fst (ConfirmReservation newID now reservationID db)") (simp_all add: returning_def)
  from ConfirmReservation_failure [OF assms(1) this] CallConfirmReservation show ?thesis
    by (auto simp: unchangedButPurged_def returning_def purgedOnly_same)
next
  case (CallCreateUser newID now name email)
  with assms(2) show ?thesis
    by (simp add: unchangedButPurged_def returning_def CreateUser_def Let_def purgedOnly_same
        split: if_splits)
next
  case (CallCreateBooking newID now userID conferenceID ticketCount)
  with assms(2) show ?thesis
    by (simp add: unchangedButPurged_def returning_def CreateBooking_def Let_def purgedOnly_same
        split: option.splits if_splits)
next
  case (CallCreateReservation newID now userID conferenceID ticketCount)
  with assms(2) show ?thesis
    by (simp add: unchangedButPurged_def returning_def CreateReservation_def Let_def
        purgedOnly_cleanup split: option.splits if_splits)
next
  case (CallClaimNext newID now userID conferenceID)
  with assms(2) show ?thesis
    by (simp add: unchangedButPurged_def returning_def ClaimNext_def Let_def purgedOnly_cleanup
        split: option.splits if_splits list.splits)
next
  case (CallCancelReservation reservationID)
  with assms(2) show ?thesis
    by (simp add: unchangedButPurged_def returning_def CancelReservation_def split: option.splits)
next
  case (CallGetReservation now reservationID)
  with assms(2) show ?thesis
    by (simp add: unchangedButPurged_def returning_def GetReservation_def Let_def
        purgedOnly_cleanup split: option.splits)
next
  case (CallGetUser userID)
  with assms(2) show ?thesis by (simp add: unchangedButPurged_def)
next
  case (CallGetConference conferenceID)
  with assms(2) show ?thesis by (simp add: unchangedButPurged_def)
qed (use assms(2) in simp_all)

text \<open>
  C8. In every store that a sequence of calls makes from the store of \<open>NewDatabase\<close>, a
  call returns a value or one error; the error is one of those its method can return, and it
  is never the panic of \<open>ConfirmReservation\<close>, since the conference of a stored reservation
  is always in the catalogue. A call that returns an error leaves the store as it was, apart
  from reservations that had expired at the time of the call and are removed: the purge of
  \<open>CreateReservation\<close>, \<open>ClaimNext\<close> and \<open>GetReservation\<close>, and the expired entry that
  \<open>ConfirmReservation\<close> deletes. (The calls are the methods of \<open>Database\<close> that write to
  the store or return an error; the others only read and return what they find.)
\<close>

theorem calls_total_and_atomic:
  assumes "db = run env calls (NewDatabase (env_AddDate env) (env_prices env) startTime)"
  shows "\<forall>e. fst (step env c db) = Inl e \<longrightarrow>
           e \<in> set (errorsOf c) \<and> e \<noteq> NilPointerDereference \<and>
           unchangedButPurged c db (snd (step env c db))"
proof -
  have wf: "wellFormed db"
    unfolding assms by (rule wellFormed_run) (rule wellFormed_NewDatabase)
  have "e \<noteq> NilPointerDereference" if "e \<in> set (errorsOf c)" for e
    using that by (cases c) auto
  with step_error_kinds [OF wf] step_failure_frame [OF wf] show ?thesis
    by simp
qed

theorem calls_total_and_atomic_witness:
  "dbHeld =
     run env0 [CallCreateUser ''u-alice'' Second ''Alice'' ''Alice@Example.com'',
               CallCreateReservation ''r-1'' (2 * Second) ''u-alice'' ''conf-2'' 75]
       (NewDatabase (env_AddDate env0) (env_prices env0) 0) \<and>
   fst (step env0 (CallConfirmReservation ''b-1'' (18 * Second) ''r-1'') dbHeld) =
     Inl ReservationExpired \<and>
   ReservationExpired \<in> set (errorsOf (CallConfirmReservation ''b-1'' (18 * Second) ''r-1'')) \<and>
   unchangedButPurged (CallConfirmReservation ''b-1'' (18 * Second) ''r-1'') dbHeld
     (snd (step env0 (CallConfirmReservation ''b-1'' (18 * Second) ''r-1'') dbHeld))"
proof -
  have reached: "dbHeld =
     run env0 [CallCreateUser ''u-alice'' Second ''Alice'' ''Alice@Example.com'',
               CallCreateReservation ''r-1'' (2 * Second) ''u-alice'' ''conf-2'' 75]
       (NewDatabase (env_AddDate env0) (env_prices env0) 0)"
    by (simp only: dbHeld_def db0_def)
  have failed: "fst (step env0 (CallConfirmReservation ''b-1'' (18 * Second) ''r-1'') dbHeld) =
     Inl ReservationExpired"
    by code_simp
  with calls_total_and_atomic [OF reached, of "CallConfirmReservation ''b-1'' (18 * Second) ''r-1''"]
  have "ReservationExpired \<in> set (errorsOf (CallConfirmReservation ''b-1'' (18 * Second) ''r-1'')) \<and>
   unchangedButPurged (CallConfirmReservation ''b-1'' (18 * Second) ''r-1'') dbHeld
     (snd (step env0 (CallConfirmReservation ''b-1'' (18 * Second) ''r-1'') dbHeld))"
    by blast
  with reached failed show ?thesis
    by blast
qed

subsection \<open>The email of a new user\<close>

text \<open>
  C10. \<open>CreateUser\<close> fails exactly when a stored user has an email whose normal form, the
  trimmed email in lower case, is the normal form of the email given. The user it otherwise
  returns, and stores under the new identifier, carries the normal form and not the email as
  given. So after a user has been created, an email with the same normal form is refused,
  normalization being idempotent on the first email (as \<open>strings.ToLower\<close> after
  \<open>strings.TrimSpace\<close> is; shown below for their action on ASCII text).
\<close>

theorem CreateUser_normalizes:
  "(isl (fst (CreateUser ToLower TrimSpace newID now name email db)) \<longleftrightarrow>
      list_ex (\<lambda>(_, user). ToLower (TrimSpace (u_Email user)) = ToLower (TrimSpace email)) (Users db)) \<and>
   (\<forall>user. fst (CreateUser ToLower TrimSpace newID now name email db) = Inr user \<longrightarrow>
      u_Email user = ToLower (TrimSpace email) \<and>
      map_of (Users (snd (CreateUser ToLower TrimSpace newID now name email db))) newID = Some user) \<and>
   (\<not> isl (fst (CreateUser ToLower TrimSpace newID now name email db)) \<and>
    ToLower (TrimSpace (ToLower (TrimSpace email))) = ToLower (TrimSpace email) \<and>
    ToLower (TrimSpace email') = ToLower (TrimSpace email) \<longrightarrow>
      fst (CreateUser ToLower TrimSpace newID' now' name' email'
             (snd (CreateUser ToLower TrimSpace newID now name email db))) =
        Inl (UserAlreadyExists email'))"
proof -
  let ?norm = "ToLower (TrimSpace email)"
  let ?user = "\<lparr>u_ID = newID, u_Name = name, u_Email = ?norm, u_Created = now\<rparr>"
  have stored: "list_ex (\<lambda>(_, user). ToLower (TrimSpace (u_Email user)) = ?norm)
                  (AList.update newID ?user (Users db))"
    if "ToLower (TrimSpace ?norm) = ?norm"
  proof -
    have "(newID, ?user) \<in> set (AList.update newID ?user (Users db))"
      by (metis update_conv' fun_upd_same map_of_SomeD)
    with that show ?thesis
      unfolding list_ex_iff by force
  qed
  show ?thesis
    using stored by (auto simp: CreateUser_def Let_def update_conv')
qed

text \<open>The library functions on ASCII text: normalizing twice is normalizing once.\<close>

lemma asciiLower_other:
  "c \<notin> set ''ABCDEFGHIJKLMNOPQRSTUVWXYZ'' \<Longrightarrow> asciiLower c = c"
proof -
  assume "c \<notin> set ''ABCDEFGHIJKLMNOPQRSTUVWXYZ''"
  then have "map_of (zip ''ABCDEFGHIJKLMNOPQRSTUVWXYZ'' ''abcdefghijklmnopqrstuvwxyz'') c = None"
    by (subst map_of_zip_is_None) simp_all
  then show ?thesis
    by (simp only: asciiLower_def option.case)
qed

lemma asciiLower_upper:
  assumes "c \<in> set ''ABCDEFGHIJKLMNOPQRSTUVWXYZ''"
  shows "asciiLower c \<in> set ''abcdefghijklmnopqrstuvwxyz''"
proof -
  have "length ''ABCDEFGHIJKLMNOPQRSTUVWXYZ'' = length ''abcdefghijklmnopqrstuvwxyz''"
    by simp
  from map_of_zip_is_Some [OF this] assms
  obtain l where l: "map_of (zip ''ABCDEFGHIJKLMNOPQRSTUVWXYZ'' ''abcdefghijklmnopqrstuvwxyz'') c = Some l"
    by blast
  then have "(c, l) \<in> set (zip ''ABCDEFGHIJKLMNOPQRSTUVWXYZ'' ''abcdefghijklmnopqrstuvwxyz'')"
    by (rule map_of_SomeD)
  then have "l \<in> set ''abcdefghijklmnopqrstuvwxyz''"
    by (rule set_zip_rightD)
  with l show ?thesis
    by (simp only: asciiLower_def option.case)
qed

lemma lower_not_upper:
  "c \<in> set ''abcdefghijklmnopqrstuvwxyz'' \<Longrightarrow> c \<notin> set ''ABCDEFGHIJKLMNOPQRSTUVWXYZ''"
  by auto

lemma letters_not_space:
  "c \<in> set ''abcdefghijklmnopqrstuvwxyz'' \<Longrightarrow> \<not> asciiSpace c"
  "c \<in> set ''ABCDEFGHIJKLMNOPQRSTUVWXYZ'' \<Longrightarrow> \<not> asciiSpace c"
  by (auto simp: asciiSpace_def)

lemma asciiLower_idem: "asciiLower (asciiLower c) = asciiLower c"
  by (cases "c \<in> set ''ABCDEFGHIJKLMNOPQRSTUVWXYZ''")
    (metis asciiLower_upper asciiLower_other lower_not_upper)+

lemma asciiSpace_asciiLower: "asciiSpace (asciiLower c) = asciiSpace c"
  by (cases "c \<in> set ''ABCDEFGHIJKLMNOPQRSTUVWXYZ''")
    (metis asciiLower_upper asciiLower_other letters_not_space)+

lemma asciiToLower_idem: "asciiToLower (asciiToLower s) = asciiToLower s"
  by (simp add: asciiToLower_def asciiLower_idem)

lemma dropWhile_asciiToLower:
  "dropWhile asciiSpace (asciiToLower s) = asciiToLower (dropWhile asciiSpace s)"
  by (simp add: asciiToLower_def dropWhile_map comp_def asciiSpace_asciiLower)

lemma asciiTrimSpace_asciiToLower:
  "asciiTrimSpace (asciiToLower s) = asciiToLower (asciiTrimSpace s)"
proof -
  have "rev (asciiToLower s) = asciiToLower (rev s)" for s
    by (simp add: asciiToLower_def rev_map)
  then show ?thesis
    by (simp add: asciiTrimSpace_def dropWhile_asciiToLower)
qed

lemma dropWhile_rev_dropWhile:
  "dropWhile P (rev (dropWhile P (rev (dropWhile P xs)))) = rev (dropWhile P (rev (dropWhile P xs)))"
proof -
  let ?t = "dropWhile P xs"
  let ?u = "rev (dropWhile P (rev ?t))"
  show "dropWhile P ?u = ?u"
  proof (cases "?u = []")
    case True
    show ?thesis unfolding True by simp
  next
    case False
    have "rev ?t = takeWhile P (rev ?t) @ dropWhile P (rev ?t)"
      by simp
    then have "?t = ?u @ rev (takeWhile P (rev ?t))"
      by (metis rev_append rev_rev_ident)
    with False have "hd ?u = hd ?t" "?t \<noteq> []"
      by (metis hd_append2, metis append_is_Nil_conv)
    moreover from \<open>?t \<noteq> []\<close> have "\<not> P (hd ?t)"
      by (rule hd_dropWhile)
    ultimately have "\<not> P (hd ?u)"
      by simp
    with False show ?thesis
      by (cases ?u) simp_all
  qed
qed

lemma asciiTrimSpace_idem: "asciiTrimSpace (asciiTrimSpace s) = asciiTrimSpace s"
  by (simp add: asciiTrimSpace_def dropWhile_rev_dropWhile)

lemma ascii_normal_form:
  "asciiToLower (asciiTrimSpace (asciiToLower (asciiTrimSpace s))) = asciiToLower (asciiTrimSpace s)"
  by (simp add: asciiTrimSpace_asciiToLower asciiTrimSpace_idem asciiToLower_idem)

theorem CreateUser_normalizes_witness:
  "\<not> isl (fst (CreateUser asciiToLower asciiTrimSpace ''u-1'' Second ''A'' ''Test@Example.com'' db0)) \<and>
   fst (CreateUser asciiToLower asciiTrimSpace ''u-1'' Second ''A'' ''Test@Example.com'' db0) =
     Inr \<lparr>u_ID = ''u-1'', u_Name = ''A'', u_Email = ''test@example.com'', u_Created = Second\<rparr> \<and>
   asciiToLower (asciiTrimSpace (asciiToLower (asciiTrimSpace ''Test@Example.com''))) =
     asciiToLower (asciiTrimSpace ''Test@Example.com'') \<and>
   asciiToLower (asciiTrimSpace ''  test@EXAMPLE.com '') =
     asciiToLower (asciiTrimSpace ''Test@Example.com'') \<and>
   fst (CreateUser asciiToLower asciiTrimSpace ''u-2'' (2 * Second) ''B'' ''  test@EXAMPLE.com ''
          (snd (CreateUser asciiToLower asciiTrimSpace ''u-1'' Second ''A'' ''Test@Example.com'' db0))) =
     Inl (UserAlreadyExists ''  test@EXAMPLE.com '')"
proof -
  note normalizes =
    CreateUser_normalizes [where ToLower = asciiToLower and TrimSpace = asciiTrimSpace
      and newID = "''u-1''" and now = Second and name = "''A''" and email = "''Test@Example.com''"
      and db = db0 and newID' = "''u-2''" and now' = "2 * Second" and name' = "''B''"
      and email' = "''  test@EXAMPLE.com ''"]
  have created:
    "fst (CreateUser asciiToLower asciiTrimSpace ''u-1'' Second ''A'' ''Test@Example.com'' db0) =
     Inr \<lparr>u_ID = ''u-1'', u_Name = ''A'', u_Email = ''test@example.com'', u_Created = Second\<rparr>"
    by code_simp
  then have returned:
    "\<not> isl (fst (CreateUser asciiToLower asciiTrimSpace ''u-1'' Second ''A'' ''Test@Example.com'' db0))"
    by simp
  have same: "asciiToLower (asciiTrimSpace ''  test@EXAMPLE.com '') =
     asciiToLower (asciiTrimSpace ''Test@Example.com'')"
    by code_simp
  from normalizes returned same ascii_normal_form [of "''Test@Example.com''"]
  have "fst (CreateUser asciiToLower asciiTrimSpace ''u-2'' (2 * Second) ''B'' ''  test@EXAMPLE.com ''
          (snd (CreateUser asciiToLower asciiTrimSpace ''u-1'' Second ''A'' ''Test@Example.com'' db0))) =
     Inl (UserAlreadyExists ''  test@EXAMPLE.com '')"
    by blast
  with created returned same ascii_normal_form [of "''Test@Example.com''"] show ?thesis
    by blast
qed

end
